theory Spec2Isabelle
  imports Complex_Main "HOL-Library.AList" "HOL-Library.Multiset"
begin

section \<open>Python values\<close>

text \<open>
  Articles, configuration trees and JSON bodies are Python dictionaries holding
  dynamically typed values.  A dictionary is an association list in insertion order
  with string keys.  A float is taken as the real number it denotes; the arithmetic
  of the standard library on it (\<^verbatim>\<open>+\<close>, \<^verbatim>\<open>*\<close>, \<^verbatim>\<open>/\<close>, \<^verbatim>\<open>math.log\<close>) is that of the reals, and
  NumPy's \<^verbatim>\<open>np.exp\<close>, whose float64 result underflows to exactly \<open>0.0\<close>, is left to the
  environment.
\<close>

text \<open>
  A \<^verbatim>\<open>datetime\<close> object (the arXiv client puts such objects into the articles it
  returns): its position on the time line in seconds, and whether it carries
  a UTC offset (is ``aware'').
\<close>

record datetime =
  stamp :: real
  aware :: bool

datatype pyval =
    PNone
  | PBool bool
  | PInt int
  | PFloat real
  | PStr string
  | PDatetime datetime
  | PList "pyval list"
  | PDict "(string \<times> pyval) list"

type_synonym pydict = "(string \<times> pyval) list"

datatype exn =
    KeyError string
  | ValueError
  | TypeError
  | AttributeError
  | ZeroDivisionError
  | CollaboratorError string

text \<open>Truth value of an object, as tested by \<^verbatim>\<open>if x\<close>, \<^verbatim>\<open>x or y\<close>, \<^verbatim>\<open>not x\<close>.\<close>

fun truthy :: "pyval \<Rightarrow> bool" where
  "truthy PNone = False"
| "truthy (PBool b) = b"
| "truthy (PInt i) = (i \<noteq> 0)"
| "truthy (PFloat r) = (r \<noteq> 0)"
| "truthy (PStr s) = (s \<noteq> [])"
| "truthy (PDatetime d) = True"
| "truthy (PList xs) = (xs \<noteq> [])"
| "truthy (PDict d) = (d \<noteq> [])"

text \<open>The numeric value of an int, float or bool; other objects are not numbers.\<close>

fun num_of :: "pyval \<Rightarrow> real option" where
  "num_of (PInt i) = Some (real_of_int i)"
| "num_of (PFloat r) = Some r"
| "num_of (PBool b) = Some (if b then 1 else 0)"
| "num_of _ = None"

text \<open>\<^verbatim>\<open>d.get(k, default)\<close> and \<^verbatim>\<open>d[k] = v\<close> on a dictionary.\<close>

definition dict_get :: "pydict \<Rightarrow> string \<Rightarrow> pyval \<Rightarrow> pyval" where
  "dict_get d k dflt = (case map_of d k of Some v \<Rightarrow> v | None \<Rightarrow> dflt)"

definition dict_set :: "string \<Rightarrow> pyval \<Rightarrow> pydict \<Rightarrow> pydict" where
  "dict_set k v d = AList.update k v d"

text \<open>\<^verbatim>\<open>s.replace('Z', '+00:00')\<close>.\<close>

definition replace_Z :: "string \<Rightarrow> string" where
  "replace_Z s = concat (map (\<lambda>c. if c = CHR ''Z'' then ''+00:00'' else [c]) s)"

text \<open>\<^verbatim>\<open>key.split('.')\<close>.\<close>

fun split_dot :: "string \<Rightarrow> string list" where
  "split_dot [] = [[]]"
| "split_dot (c # cs) =
     (if c = CHR ''.'' then [] # split_dot cs
      else (case split_dot cs of
              [] \<Rightarrow> [[c]]
            | w # ws \<Rightarrow> (c # w) # ws))"

section \<open>ConfigLoader (src/utils/config\_loader.py)\<close>

text \<open>\<^verbatim>\<open>_get_default_config\<close>, lines 75-103.\<close>

definition default_weights :: pydict where
  "default_weights =
     [(''relevance'', PFloat (1/2)), (''recency'', PFloat (3/10)), (''citations'', PFloat (1/5))]"

definition default_ranking :: pydict where
  "default_ranking =
     [(''weights'', PDict default_weights), (''recency_decay_days'', PInt 730)]"

definition get_default_config :: pydict where
  "get_default_config =
     [(''ranking'', PDict default_ranking),
      (''models'', PDict [(''embedding_model'', PStr ''all-MiniLM-L6-v2'')]),
      (''citation'', PDict [(''enabled'', PBool True),
                            (''rate_limit_delay'', PFloat (1/10)),
                            (''normalization_max_citations'', PInt 1000)]),
      (''data_collection'', PDict [(''max_results'', PInt 100),
                                   (''default_sort'', PStr ''submitted_date''),
                                   (''default_sort_order'', PStr ''descending'')]),
      (''processing'', PDict [(''process_metadata'', PBool True),
                              (''process_text'', PBool True)])]"

text \<open>
  \<^verbatim>\<open>_deep_merge\<close>, lines 32-53: the loop over \<^verbatim>\<open>override.items()\<close> updates a copy of
  \<^verbatim>\<open>base\<close>; two dictionaries under the same key are merged recursively, anything else
  is overridden.
\<close>

function deep_merge :: "pydict \<Rightarrow> pydict \<Rightarrow> pydict" where
  "deep_merge base [] = base"
| "deep_merge base ((key, value) # rest) =
     deep_merge
       (case value of
          PDict v \<Rightarrow>
            (case map_of base key of
               Some (PDict b) \<Rightarrow> dict_set key (PDict (deep_merge b v)) base
             | _ \<Rightarrow> dict_set key value base)
        | _ \<Rightarrow> dict_set key value base)
       rest"
  by pat_completeness auto
termination
  by (relation "measure (\<lambda>(b, ov). size_list (size_prod (\<lambda>_. 0) size) ov)") auto

text \<open>
  \<^verbatim>\<open>load\<close>, lines 55-73.  The file is an input: absent (\<open>None\<close>), unreadable or not
  YAML (an exception), or parsed to a value.  \<^verbatim>\<open>yaml.safe_load(f) or {}\<close> replaces a falsy
  document by the empty dictionary; merging a document that is not a dictionary fails
  on \<^verbatim>\<open>override.items()\<close>, and every exception is caught and answered with the defaults.
\<close>

definition load :: "(exn + pyval) option \<Rightarrow> pydict" where
  "load file =
     (case file of
        None \<Rightarrow> get_default_config
      | Some (Inl e) \<Rightarrow> get_default_config
      | Some (Inr y) \<Rightarrow>
          (case (if truthy y then y else PDict []) of
             PDict user_config \<Rightarrow> deep_merge get_default_config user_config
           | _ \<Rightarrow> get_default_config))"

text \<open>\<^verbatim>\<open>get\<close>, lines 105-125: dot-path lookup with a default.\<close>

fun get_path :: "pyval \<Rightarrow> string list \<Rightarrow> pyval \<Rightarrow> pyval" where
  "get_path value [] dflt = value"
| "get_path value (k # ks) dflt =
     (case value of
        PDict d \<Rightarrow> (case map_of d k of Some v \<Rightarrow> get_path v ks dflt | None \<Rightarrow> dflt)
      | _ \<Rightarrow> dflt)"

definition get :: "pydict \<Rightarrow> string \<Rightarrow> pyval \<Rightarrow> pyval" where
  "get config key dflt = get_path (PDict config) (split_dot key) dflt"

definition get_ranking_weights :: "pydict \<Rightarrow> pyval" where
  "get_ranking_weights config = get config ''ranking.weights'' (PDict default_weights)"

definition is_citation_enabled :: "pydict \<Rightarrow> pyval" where
  "is_citation_enabled config = get config ''citation.enabled'' (PBool True)"

definition get_citation_rate_limit :: "pydict \<Rightarrow> pyval" where
  "get_citation_rate_limit config = get config ''citation.rate_limit_delay'' (PFloat (1/10))"

definition get_max_citations_for_normalization :: "pydict \<Rightarrow> pyval" where
  "get_max_citations_for_normalization config =
     get config ''citation.normalization_max_citations'' (PInt 1000)"

section \<open>The world outside the ranker\<close>

text \<open>
  Article dictionaries are passed by reference and mutated in place, so they live in
  a heap indexed by reference.  The system clock, the timestamp kept by the one
  \<^verbatim>\<open>CitationFetcher\<close> instance and the log of network calls issued so far (each with the
  time on the clock when it was made, oldest first) complete the state.
\<close>

datatype request =
    GetDOI pyval         \<comment> \<open>GET BASE\_URL/DOI:<doi>, fields=citationCount\<close>
  | GetArxiv pyval       \<comment> \<open>GET BASE\_URL/arXiv:<id>, fields=citationCount\<close>
  | SearchTitle pyval    \<comment> \<open>GET BASE\_URL/search, query=<title>, limit=1\<close>

record response =
  status_code :: int
  json :: "exn + pyval"

record world =
  heap :: "nat \<Rightarrow> pydict"
  clock :: real
  reads :: nat
  last_request_time :: real
  sent :: "(real \<times> request) list"

text \<open>
  What the program calls but does not define: the embedding model and scikit-learn's
  cosine similarity, the standard library's ISO date parser, NumPy's float64
  exponential \<^verbatim>\<open>np.exp\<close>, \<^verbatim>\<open>str.lower\<close>, the HTTP client (the answer to the \<open>n\<close>-th
  network call of the run) and the time that passes before the \<open>n\<close>-th reading of the
  clock.
\<close>

record 'v env =
  predict :: "pydict \<Rightarrow> exn + 'v"
  cosine_similarity :: "'v \<Rightarrow> 'v \<Rightarrow> exn + real"
  fromisoformat :: "string \<Rightarrow> exn + datetime"
  np_exp :: "real \<Rightarrow> real"
  str_lower :: "string \<Rightarrow> string"
  requests_get :: "nat \<Rightarrow> request \<Rightarrow> exn + response"
  drift :: "nat \<Rightarrow> real"

text \<open>
  \<^verbatim>\<open>time.time()\<close> (and the clock behind \<^verbatim>\<open>datetime.utcnow()\<close>) and \<^verbatim>\<open>time.sleep(d)\<close>.  A sleep
  advances the clock by the time asked for; whatever else passes between two readings
  (a request on the wire, a sleep that runs long) is the drift before the next
  reading.
\<close>

definition time_time :: "'v env \<Rightarrow> world \<Rightarrow> real \<times> world" where
  "time_time e w =
     (let t = clock w + drift e (reads w)
      in (t, w\<lparr>clock := t, reads := Suc (reads w)\<rparr>))"

definition time_sleep :: "real \<Rightarrow> world \<Rightarrow> world" where
  "time_sleep d w = w\<lparr>clock := clock w + d\<rparr>"

section \<open>CitationFetcher (src/utils/citation\_fetcher.py)\<close>

record fetcher =
  rate_limit_delay :: pyval

text \<open>
  \<^verbatim>\<open>_rate_limit\<close>, lines 27-33.  Comparing the elapsed time with a delay that is not a
  number raises \<^verbatim>\<open>TypeError\<close>.
\<close>

definition rate_limit :: "'v env \<Rightarrow> fetcher \<Rightarrow> world \<Rightarrow> (exn + unit) \<times> world" where
  "rate_limit e f w =
     (let (current_time, w1) = time_time e w;
          time_since_last = current_time - last_request_time w1
      in case num_of (rate_limit_delay f) of
           None \<Rightarrow> (Inl TypeError, w1)
         | Some delay \<Rightarrow>
             (let w2 = (if time_since_last < delay
                        then time_sleep (delay - time_since_last) w1 else w1);
                  (t, w3) = time_time e w2
              in (Inr (), w3\<lparr>last_request_time := t\<rparr>)))"

text \<open>
  \<^verbatim>\<open>requests.get(url, params=params, timeout=5)\<close>: the call is logged with the reading
  of the clock at the moment it is made, and answered by the environment.
\<close>

definition http_get :: "'v env \<Rightarrow> request \<Rightarrow> world \<Rightarrow> (exn + response) \<times> world" where
  "http_get e rq w =
     (requests_get e (length (sent w)) rq,
      w\<lparr>sent := sent w @ [(clock w, rq)]\<rparr>)"

text \<open>
  Lines 83-90 and 103-110: the count of a lookup by identifier.  \<^verbatim>\<open>response.json()\<close> may
  raise, and \<^verbatim>\<open>data.get\<close> raises unless the body is a dictionary; both are caught by the
  caller's \<^verbatim>\<open>except Exception\<close> and give \<^verbatim>\<open>None\<close>.
\<close>

definition count_of_response :: "exn + response \<Rightarrow> pyval" where
  "count_of_response r =
     (case r of
        Inl ex \<Rightarrow> PNone
      | Inr resp \<Rightarrow>
          (if status_code resp = 200 then
             (case json resp of
                Inr (PDict data) \<Rightarrow> dict_get data ''citationCount'' (PInt 0)
              | _ \<Rightarrow> PNone)
           else PNone))"

text \<open>\<^verbatim>\<open>_fetch_by_doi\<close>, lines 75-93.\<close>

definition fetch_by_doi :: "'v env \<Rightarrow> fetcher \<Rightarrow> pyval \<Rightarrow> world \<Rightarrow> pyval \<times> world" where
  "fetch_by_doi e f doi w =
     (case rate_limit e f w of
        (Inl ex, w1) \<Rightarrow> (PNone, w1)
      | (Inr u, w1) \<Rightarrow>
          (let (r, w2) = http_get e (GetDOI doi) w1 in (count_of_response r, w2)))"

text \<open>\<^verbatim>\<open>_fetch_by_arxiv_id\<close>, lines 95-113.\<close>

definition fetch_by_arxiv_id :: "'v env \<Rightarrow> fetcher \<Rightarrow> pyval \<Rightarrow> world \<Rightarrow> pyval \<times> world" where
  "fetch_by_arxiv_id e f arxiv_id w =
     (case rate_limit e f w of
        (Inl ex, w1) \<Rightarrow> (PNone, w1)
      | (Inr u, w1) \<Rightarrow>
          (let (r, w2) = http_get e (GetArxiv arxiv_id) w1 in (count_of_response r, w2)))"

text \<open>
  Lines 127-135: the count of a title search.  Only a body
  \<^verbatim>\<open>{"data": [{"title": t, ...}, ...]}\<close> whose first hit has a string title equal to the
  requested one after lower-casing gives a count; every other shape either falls
  through to \<^verbatim>\<open>return None\<close> or raises inside the \<^verbatim>\<open>try\<close>.
\<close>

definition count_of_search :: "'v env \<Rightarrow> pyval \<Rightarrow> exn + response \<Rightarrow> pyval" where
  "count_of_search e title r =
     (case r of
        Inl ex \<Rightarrow> PNone
      | Inr resp \<Rightarrow>
          (if status_code resp = 200 then
             (case json resp of
                Inr (PDict data) \<Rightarrow>
                  (case dict_get data ''data'' (PList []) of
                     PList (PDict first_paper # others) \<Rightarrow>
                       (case (dict_get first_paper ''title'' (PStr []), title) of
                          (PStr t, PStr s) \<Rightarrow>
                            (if str_lower e t = str_lower e s
                             then dict_get first_paper ''citationCount'' (PInt 0)
                             else PNone)
                        | _ \<Rightarrow> PNone)
                   | _ \<Rightarrow> PNone)
              | _ \<Rightarrow> PNone)
           else PNone))"

text \<open>\<^verbatim>\<open>_fetch_by_title\<close>, lines 115-138.\<close>

definition fetch_by_title :: "'v env \<Rightarrow> fetcher \<Rightarrow> pyval \<Rightarrow> world \<Rightarrow> pyval \<times> world" where
  "fetch_by_title e f title w =
     (case rate_limit e f w of
        (Inl ex, w1) \<Rightarrow> (PNone, w1)
      | (Inr u, w1) \<Rightarrow>
          (let (r, w2) = http_get e (SearchTitle title) w1 in (count_of_search e title r, w2)))"

text \<open>
  \<^verbatim>\<open>get_citation_count\<close>, lines 35-73, on the article stored at reference \<open>a\<close>.
  \<^verbatim>\<open>'k' in article and article['k']\<close> holds when the key is present with a truthy value.
\<close>

definition has_truthy :: "pydict \<Rightarrow> string \<Rightarrow> bool" where
  "has_truthy d k = (case map_of d k of Some v \<Rightarrow> truthy v | None \<Rightarrow> False)"

definition try_title :: "'v env \<Rightarrow> fetcher \<Rightarrow> pydict \<Rightarrow> world \<Rightarrow> pyval \<times> world" where
  "try_title e f article w =
     (if has_truthy article ''title''
      then fetch_by_title e f (dict_get article ''title'' PNone) w
      else (PNone, w))"

definition try_arxiv :: "'v env \<Rightarrow> fetcher \<Rightarrow> pydict \<Rightarrow> world \<Rightarrow> pyval \<times> world" where
  "try_arxiv e f article w =
     (if has_truthy article ''arxiv_id''
      then (let (c, w1) = fetch_by_arxiv_id e f (dict_get article ''arxiv_id'' PNone) w
            in if c \<noteq> PNone then (c, w1) else try_title e f article w1)
      else try_title e f article w)"

definition get_citation_count :: "'v env \<Rightarrow> fetcher \<Rightarrow> nat \<Rightarrow> world \<Rightarrow> pyval \<times> world" where
  "get_citation_count e f a w =
     (let article = heap w a
      in if dict_get article ''citation_count'' PNone \<noteq> PNone
         then (dict_get article ''citation_count'' PNone, w)
         else if has_truthy article ''doi''
         then (let (c, w1) = fetch_by_doi e f (dict_get article ''doi'' PNone) w
               in if c \<noteq> PNone then (c, w1) else try_arxiv e f article w1)
         else try_arxiv e f article w)"

section \<open>ArticleRanker (src/ranking\_engine/ranker.py)\<close>

record ranker =
  config :: pydict
  citation_fetcher :: "fetcher option"

text \<open>
  \<^verbatim>\<open>__init__\<close>, lines 28-36, given a loaded configuration: a fetcher is created when none
  is supplied and citations are enabled.  The embedding model is part of the
  environment.
\<close>

definition ArticleRanker :: "pydict \<Rightarrow> fetcher option \<Rightarrow> ranker" where
  "ArticleRanker cfg given =
     \<lparr>config = cfg,
      citation_fetcher =
        (if given = None \<and> truthy (is_citation_enabled cfg)
         then Some \<lparr>rate_limit_delay = get_citation_rate_limit cfg\<rparr>
         else given)\<rparr>"

text \<open>
  \<^verbatim>\<open>_calculate_relevance_score\<close>, lines 103-122.  Nothing here catches an exception of
  the embedding model or of the similarity.
\<close>

definition calculate_relevance_score :: "'v env \<Rightarrow> pydict \<Rightarrow> pyval \<Rightarrow> exn + real" where
  "calculate_relevance_score e article query =
     (case predict e [(''title'', query), (''abstract'', PStr [])] of
        Inl ex \<Rightarrow> Inl ex
      | Inr query_embedding \<Rightarrow>
          (case predict e article of
             Inl ex \<Rightarrow> Inl ex
           | Inr article_embedding \<Rightarrow> cosine_similarity e query_embedding article_embedding))"

text \<open>
  \<^verbatim>\<open>_calculate_recency_score\<close>, lines 124-148.  \<^verbatim>\<open>.replace('Z', '+00:00')\<close> exists on
  strings; on a \<^verbatim>\<open>datetime\<close> object the same call is \<^verbatim>\<open>datetime.replace\<close> with strings for
  year and month, a \<^verbatim>\<open>TypeError\<close>; other objects have no such attribute.  Subtracting an
  aware date from the naive \<^verbatim>\<open>utcnow()\<close> and dividing by a decay that is not a number are
  \<^verbatim>\<open>TypeError\<close>s too.  \<^verbatim>\<open>ValueError\<close> and \<^verbatim>\<open>TypeError\<close> are caught, nothing else is.
\<close>

definition recency_of_days :: "'v env \<Rightarrow> int \<Rightarrow> real \<Rightarrow> real" where
  "recency_of_days e days_old decay_days = np_exp e (- real_of_int days_old / decay_days)"

definition calculate_recency_score ::
  "'v env \<Rightarrow> ranker \<Rightarrow> pydict \<Rightarrow> world \<Rightarrow> (exn + real) \<times> world" where
  "calculate_recency_score e r article w =
     (case map_of article ''published'' of
        None \<Rightarrow> (Inr 0, w)
      | Some (PStr s) \<Rightarrow>
          (case fromisoformat e (replace_Z s) of
             Inl ex \<Rightarrow> (if ex = ValueError \<or> ex = TypeError then Inr 0 else Inl ex, w)
           | Inr pub_date \<Rightarrow>
               (let (now, w1) = time_time e w
                in if aware pub_date then (Inr 0, w1)
                   else
                     (let days_old = \<lfloor>(now - stamp pub_date) / 86400\<rfloor>
                      in case num_of (get (config r) ''ranking.recency_decay_days'' (PInt 730)) of
                           None \<Rightarrow> (Inr 0, w1)
                         | Some decay_days \<Rightarrow>
                             (if decay_days = 0 then (Inl ZeroDivisionError, w1)
                              else (Inr (recency_of_days e days_old decay_days), w1)))))
      | Some (PDatetime d) \<Rightarrow> (Inr 0, w)
      | Some other \<Rightarrow> (Inl AttributeError, w))"

text \<open>
  Lines 170-177: the score of a resolved count.  \<^verbatim>\<open>1 + x\<close> needs a number, \<^verbatim>\<open>math.log\<close>
  a positive one, and the quotient a divisor other than zero.
\<close>

definition normalized_citations :: "pyval \<Rightarrow> pyval \<Rightarrow> exn + real" where
  "normalized_citations citation_count max_citations =
     (if citation_count = PNone \<or> num_of citation_count = Some 0 then Inr 0
      else
        (case num_of citation_count of
           None \<Rightarrow> Inl TypeError
         | Some c \<Rightarrow>
             (if 1 + c \<le> 0 then Inl ValueError
              else
                (case num_of max_citations of
                   None \<Rightarrow> Inl TypeError
                 | Some m \<Rightarrow>
                     (if 1 + m \<le> 0 then Inl ValueError
                      else if ln (1 + m) = 0 then Inl ZeroDivisionError
                      else Inr (min 1 (max 0 (ln (1 + c) / ln (1 + m)))))))))"

text \<open>
  \<^verbatim>\<open>_calculate_citation_score\<close>, lines 150-177, on the article at reference \<open>a\<close>: a count
  that the fetcher resolves is stored into the article.
\<close>

definition cache_count :: "nat \<Rightarrow> pyval \<Rightarrow> world \<Rightarrow> world" where
  "cache_count a c w = w\<lparr>heap := (heap w)(a := dict_set ''citation_count'' c (heap w a))\<rparr>"

definition calculate_citation_score ::
  "'v env \<Rightarrow> ranker \<Rightarrow> nat \<Rightarrow> world \<Rightarrow> (exn + real) \<times> world" where
  "calculate_citation_score e r a w =
     (case citation_fetcher r of
        None \<Rightarrow> (Inr 0, w)
      | Some f \<Rightarrow>
          (if \<not> truthy (is_citation_enabled (config r)) then (Inr 0, w)
           else
             (let cached = dict_get (heap w a) ''citation_count'' PNone;
                  (citation_count, w2) =
                    (if cached = PNone
                     then (let (c, w1) = get_citation_count e f a w
                           in (c, if c \<noteq> PNone then cache_count a c w1 else w1))
                     else (cached, w))
              in (normalized_citations citation_count
                    (get_max_citations_for_normalization (config r)), w2))))"

text \<open>
  \<^verbatim>\<open>_calculate_score\<close>, lines 85-101.  First the three signals (lines 85-94), in the
  order relevance, recency, citations.
\<close>

definition signal_scores ::
  "'v env \<Rightarrow> ranker \<Rightarrow> nat \<Rightarrow> pyval \<Rightarrow> world \<Rightarrow> (exn + (string \<times> real) list) \<times> world" where
  "signal_scores e r a query w =
     (case (if truthy query then calculate_relevance_score e (heap w a) query else Inr 0) of
        Inl ex \<Rightarrow> (Inl ex, w)
      | Inr relevance \<Rightarrow>
          (case calculate_recency_score e r (heap w a) w of
             (Inl ex, w1) \<Rightarrow> (Inl ex, w1)
           | (Inr recency, w1) \<Rightarrow>
               (case calculate_citation_score e r a w1 of
                  (Inl ex, w2) \<Rightarrow> (Inl ex, w2)
                | (Inr citations, w2) \<Rightarrow>
                    (Inr [(''relevance'', relevance), (''recency'', recency),
                          (''citations'', citations)], w2))))"

text \<open>
  Then the total (lines 96-99): \<^verbatim>\<open>sum\<close> adds \<^verbatim>\<open>scores[factor] * weight\<close> over
  \<^verbatim>\<open>weights.items()\<close> from the left, starting at 0.  A factor that is not a key of
  \<^verbatim>\<open>scores\<close> raises \<^verbatim>\<open>KeyError\<close>, a weight that is not a number \<^verbatim>\<open>TypeError\<close>.
\<close>

fun weighted_sum :: "(string \<times> real) list \<Rightarrow> pydict \<Rightarrow> real \<Rightarrow> exn + real" where
  "weighted_sum scores [] acc = Inr acc"
| "weighted_sum scores ((factor, weight) # rest) acc =
     (case map_of scores factor of
        None \<Rightarrow> Inl (KeyError factor)
      | Some s \<Rightarrow>
          (case num_of weight of
             None \<Rightarrow> Inl TypeError
           | Some wt \<Rightarrow> weighted_sum scores rest (acc + s * wt)))"

definition total_score :: "(string \<times> real) list \<Rightarrow> pyval \<Rightarrow> exn + real" where
  "total_score scores weights =
     (case weights of
        PDict items \<Rightarrow> weighted_sum scores items 0
      | _ \<Rightarrow> Inl AttributeError)"

definition calculate_score ::
  "'v env \<Rightarrow> ranker \<Rightarrow> nat \<Rightarrow> pyval \<Rightarrow> pyval \<Rightarrow> world \<Rightarrow> (exn + real) \<times> world" where
  "calculate_score e r a query weights w =
     (case signal_scores e r a query w of
        (Inl ex, w1) \<Rightarrow> (Inl ex, w1)
      | (Inr scores, w1) \<Rightarrow> (total_score scores weights, w1))"

text \<open>
  \<^verbatim>\<open>sorted(xs, key=k, reverse=True)\<close>: the list is reversed, sorted stably in ascending
  order of the key, and reversed again.
\<close>

definition sorted_reverse :: "('a \<Rightarrow> real) \<Rightarrow> 'a list \<Rightarrow> 'a list" where
  "sorted_reverse k xs = rev (sort_key k (rev xs))"

text \<open>\<^verbatim>\<open>rank_articles\<close>, lines 56-66; the loop of lines 61-64 is \<open>score_articles\<close>.\<close>

fun score_articles ::
  "'v env \<Rightarrow> ranker \<Rightarrow> pyval \<Rightarrow> pyval \<Rightarrow> nat list \<Rightarrow> (nat \<times> real) list \<Rightarrow> world
     \<Rightarrow> (exn + (nat \<times> real) list) \<times> world" where
  "score_articles e r query weights [] scored_articles w = (Inr scored_articles, w)"
| "score_articles e r query weights (article # rest) scored_articles w =
     (case calculate_score e r article query weights w of
        (Inl ex, w1) \<Rightarrow> (Inl ex, w1)
      | (Inr score, w1) \<Rightarrow>
          score_articles e r query weights rest (scored_articles @ [(article, score)]) w1)"

definition rank_articles ::
  "'v env \<Rightarrow> ranker \<Rightarrow> nat list \<Rightarrow> pyval \<Rightarrow> pyval \<Rightarrow> world
     \<Rightarrow> (exn + (nat \<times> real) list) \<times> world" where
  "rank_articles e r articles query weights w =
     (if articles = [] then (Inr [], w)
      else
        (let weights1 = (if truthy weights then weights else get_ranking_weights (config r))
         in case score_articles e r query weights1 articles [] w of
              (Inl ex, w1) \<Rightarrow> (Inl ex, w1)
            | (Inr scored_articles, w1) \<Rightarrow> (Inr (sorted_reverse snd scored_articles), w1)))"

section \<open>Notions used in the statements and proofs\<close>

text \<open>
  The three lookups of the fetcher share one shape: wait for the rate limiter, send
  the request, read the count off the answer.
\<close>

definition lookup ::
  "'v env \<Rightarrow> fetcher \<Rightarrow> request \<Rightarrow> (exn + response \<Rightarrow> pyval) \<Rightarrow> world \<Rightarrow> pyval \<times> world" where
  "lookup e f rq rd w =
     (case rate_limit e f w of
        (Inl ex, w1) \<Rightarrow> (PNone, w1)
      | (Inr u, w1) \<Rightarrow> (rd (fst (http_get e rq w1)), snd (http_get e rq w1)))"

text \<open>
  \<open>cache_fill A w w'\<close>: from \<open>w\<close> to \<open>w'\<close> no article outside \<open>A\<close> has changed, no field
  other than \<^verbatim>\<open>citation_count\<close> has changed, and \<^verbatim>\<open>citation_count\<close> has changed only from
  absent or \<^verbatim>\<open>None\<close> to a value that is not \<^verbatim>\<open>None\<close>.
\<close>

definition cache_fill :: "nat set \<Rightarrow> world \<Rightarrow> world \<Rightarrow> bool" where
  "cache_fill A w w' =
     (\<forall>a. (a \<notin> A \<longrightarrow> heap w' a = heap w a) \<and>
          (\<forall>k. k \<noteq> ''citation_count'' \<longrightarrow> map_of (heap w' a) k = map_of (heap w a) k) \<and>
          (map_of (heap w' a) ''citation_count'' \<noteq> map_of (heap w a) ''citation_count'' \<longrightarrow>
             dict_get (heap w a) ''citation_count'' PNone = PNone \<and>
             dict_get (heap w' a) ''citation_count'' PNone \<noteq> PNone))"

text \<open>
  \<open>spaced d w\<close>: in the log of network calls every call was made, by the clock, at
  least \<open>d\<close> after the call before it; the fetcher's \<^verbatim>\<open>last_request_time\<close> is the time of
  the most recent call; and no call lies in the future of the clock.
\<close>

definition spaced :: "real \<Rightarrow> world \<Rightarrow> bool" where
  "spaced d w =
     (successively (\<lambda>s t. s + d \<le> t) (map fst (sent w)) \<and>
      (sent w \<noteq> [] \<longrightarrow> fst (last (sent w)) = last_request_time w) \<and>
      (\<forall>t \<in> fst ` set (sent w). t \<le> clock w))"

text \<open>
  \<open>progress w w'\<close>: from \<open>w\<close> to \<open>w'\<close> the clock has not gone back, and the log has
  only grown, by calls made no earlier than the clock of \<open>w\<close>.
\<close>

definition progress :: "world \<Rightarrow> world \<Rightarrow> bool" where
  "progress w w' =
     (clock w \<le> clock w' \<and>
      (\<exists>new. sent w' = sent w @ new \<and> (\<forall>t \<in> fst ` set new. clock w \<le> t)))"

text \<open>
  \<open>keeps_pace d w w'\<close>: a step from \<open>w\<close> to \<open>w'\<close> that makes progress and keeps a spaced
  log spaced.
\<close>

definition keeps_pace :: "real \<Rightarrow> world \<Rightarrow> world \<Rightarrow> bool" where
  "keeps_pace d w w' = (progress w w' \<and> (spaced d w \<longrightarrow> spaced d w'))"

section \<open>A concrete environment and batch\<close>

text \<open>
  An embedding model that fails on the title \<^verbatim>\<open>broken\<close>, a date parser that knows one
  naive and one aware date, a registry that knows one DOI and every arXiv identifier
  and times out on title searches, and a clock that advances by 10 ms between
  readings.
\<close>

definition ex_predict :: "pydict \<Rightarrow> exn + nat" where
  "ex_predict d =
     (if dict_get d ''title'' PNone = PStr ''broken''
      then Inl (CollaboratorError ''encode failed'') else Inr (length d))"

definition ex_fromisoformat :: "string \<Rightarrow> exn + datetime" where
  "ex_fromisoformat s =
     (if s = ''2024-01-01'' then Inr \<lparr>stamp = 1704067200, aware = False\<rparr>
      else if s = ''2024-01-01T00:00:00+00:00'' then Inr \<lparr>stamp = 1704067200, aware = True\<rparr>
      else Inl ValueError)"

definition ex_requests_get :: "nat \<Rightarrow> request \<Rightarrow> exn + response" where
  "ex_requests_get n rq =
     (case rq of
        GetDOI doi \<Rightarrow>
          (if doi = PStr ''10.1000/known''
           then Inr \<lparr>status_code = 200, json = Inr (PDict [(''citationCount'', PInt 5)])\<rparr>
           else Inr \<lparr>status_code = 404, json = Inl ValueError\<rparr>)
      | GetArxiv i \<Rightarrow> Inr \<lparr>status_code = 200, json = Inr (PDict [(''citationCount'', PInt 7)])\<rparr>
      | SearchTitle t \<Rightarrow> Inl (CollaboratorError ''timeout''))"

text \<open>
  Of float64 \<^verbatim>\<open>np.exp\<close> the example keeps the underflow: the result is exactly \<open>0.0\<close> for
  every argument below about \<open>-745.2\<close> (here: below \<open>-746\<close>).  Of \<^verbatim>\<open>str.lower\<close> it keeps
  the ASCII letters.
\<close>

definition ex_np_exp :: "real \<Rightarrow> real" where
  "ex_np_exp x = (if x < - 746 then 0 else exp x)"

definition ex_lower_char :: "char \<Rightarrow> char" where
  "ex_lower_char c =
     (let n = (of_char c :: nat)
      in if 65 \<le> n \<and> n \<le> 90 then char_of (n + 32) else c)"

definition ex_env :: "nat env" where
  "ex_env = \<lparr>predict = ex_predict,
             cosine_similarity = (\<lambda>u v. Inr (if u = v then 1 else 0)),
             fromisoformat = ex_fromisoformat,
             np_exp = ex_np_exp,
             str_lower = map ex_lower_char,
             requests_get = ex_requests_get,
             drift = (\<lambda>n. 1 / 100)\<rparr>"

definition ex_heap :: "nat \<Rightarrow> pydict" where
  "ex_heap a =
     (if a = 10 then [(''title'', PStr ''Alpha''), (''citation_count'', PInt 1000)]
      else if a = 11 then [(''title'', PStr ''Beta''), (''citation_count'', PInt 0)]
      else if a = 12 then [(''title'', PStr ''Gamma''), (''citation_count'', PInt 1000)]
      else if a = 13 then [(''title'', PStr ''Delta''), (''published'', PStr ''yesterday'')]
      else if a = 14 then [(''title'', PStr ''Epsilon''), (''doi'', PStr ''10.1000/unknown''),
                           (''arxiv_id'', PStr ''1706.03762'')]
      else if a = 15 then [(''title'', PStr ''Zeta''), (''doi'', PStr ''10.1000/known''),
                           (''arxiv_id'', PStr ''1706.03762'')]
      else if a = 16 then [(''title'', PStr ''broken'')]
      else if a = 17 then [(''title'', PStr ''Eta''), (''citation_count'', PInt 0)]
      else if a = 18 then [(''title'', PStr ''Iota''), (''published'', PNone)]
      else [])"

definition ex_world :: world where
  "ex_world = \<lparr>heap = ex_heap, clock = 1704153600, reads = 0, last_request_time = 0, sent = []\<rparr>"

definition ex_fetcher :: fetcher where
  "ex_fetcher = \<lparr>rate_limit_delay = PFloat (1 / 10)\<rparr>"

definition ex_ranker :: ranker where
  "ex_ranker = ArticleRanker (load None) None"

text \<open>User configurations that set the recency decay to zero and to a negative number.\<close>

definition zero_decay :: pydict where
  "zero_decay = [(''ranking'', PDict [(''recency_decay_days'', PInt 0)])]"

definition negative_decay :: pydict where
  "negative_decay = [(''ranking'', PDict [(''recency_decay_days'', PInt (- 30))])]"

definition dated_article :: pydict where
  "dated_article = [(''title'', PStr ''Theta''), (''published'', PStr ''2024-01-01'')]"

section \<open>Dictionaries and the configuration\<close>

lemma map_of_dict_set: "map_of (dict_set k v d) = (map_of d)(k \<mapsto> v)"
  by (simp add: dict_set_def update_conv')

lemma dict_get_dict_set [simp]: "dict_get (dict_set k v d) k dflt = v"
  by (simp add: dict_get_def map_of_dict_set)

text \<open>
  On an override with distinct keys (as every Python dictionary has), the merge is:
  keys of the override win, except that two dictionaries are merged.
\<close>

lemma map_of_deep_merge:
  "distinct (map fst ov) \<Longrightarrow>
   map_of (deep_merge base ov) k =
     (case map_of ov k of
        None \<Rightarrow> map_of base k
      | Some v \<Rightarrow>
          Some (case v of
                  PDict v' \<Rightarrow> (case map_of base k of
                                 Some (PDict b) \<Rightarrow> PDict (deep_merge b v')
                               | _ \<Rightarrow> v)
                | _ \<Rightarrow> v))"
proof (induction ov arbitrary: base)
  case Nil
  then show ?case by simp
next
  case (Cons kv ov)
  obtain key val where kv: "kv = (key, val)" by (cases kv)
  from Cons.prems kv have d: "distinct (map fst ov)" and nk: "map_of ov key = None"
    by (auto simp: map_of_eq_None_iff)
  show ?case
    unfolding kv deep_merge.simps Cons.IH[OF d]
    using nk
    by (auto simp: map_of_dict_set split: option.splits pyval.splits)
qed

lemma split_decay:
  "split_dot ''ranking.recency_decay_days'' = [''ranking'', ''recency_decay_days'']"
  by simp

lemma load_keeps_decay:
  assumes "distinct (map fst u)" and "map_of u ''ranking'' = Some (PDict rk)"
    and "distinct (map fst rk)" and "map_of rk ''recency_decay_days'' = Some d"
  shows "get (load (Some (Inr (PDict u)))) ''ranking.recency_decay_days'' (PInt 730) = d"
proof -
  have ne: "u \<noteq> []" using assms(2) by auto
  have 1: "map_of (deep_merge get_default_config u) ''ranking''
             = Some (PDict (deep_merge default_ranking rk))"
    using assms(2) by (simp add: map_of_deep_merge[OF assms(1)] get_default_config_def)
  have 2: "map_of (deep_merge default_ranking rk) ''recency_decay_days'' = Some d"
    using assms(4)
    by (simp add: map_of_deep_merge[OF assms(3)] default_ranking_def split: pyval.splits)
  show ?thesis
    using ne 1 2 by (simp add: get_def load_def split_decay del: split_dot.simps)
qed

lemma default_config_values:
  "is_citation_enabled get_default_config = PBool True"
  "get_citation_rate_limit get_default_config = PFloat (1 / 10)"
  "get_max_citations_for_normalization get_default_config = PInt 1000"
  "get get_default_config ''ranking.recency_decay_days'' (PInt 730) = PInt 730"
  "get_ranking_weights get_default_config = PDict default_weights"
  by (simp_all add: is_citation_enabled_def get_citation_rate_limit_def
        get_max_citations_for_normalization_def get_ranking_weights_def get_def
        get_default_config_def default_ranking_def)

lemma ex_ranker_eq:
  "ex_ranker = \<lparr>config = get_default_config, citation_fetcher = Some ex_fetcher\<rparr>"
  by (simp add: ex_ranker_def ArticleRanker_def load_def default_config_values ex_fetcher_def)

section \<open>Recency\<close>

lemma time_time_fields [simp]:
  "heap (snd (time_time e w)) = heap w"
  "sent (snd (time_time e w)) = sent w"
  "last_request_time (snd (time_time e w)) = last_request_time w"
  "clock (snd (time_time e w)) = fst (time_time e w)"
  "fst (time_time e w) = clock w + drift e (reads w)"
  by (simp_all add: time_time_def Let_def)

text \<open>The score of an article whose date parses to a naive \<^verbatim>\<open>datetime\<close>.\<close>

lemma calculate_recency_score_naive:
  assumes "map_of article ''published'' = Some (PStr s)"
    and "fromisoformat e (replace_Z s) = Inr pd" and "\<not> aware pd"
  shows "calculate_recency_score e r article w =
     ((case num_of (get (config r) ''ranking.recency_decay_days'' (PInt 730)) of
         None \<Rightarrow> Inr 0
       | Some dd \<Rightarrow>
           if dd = 0 then Inl ZeroDivisionError
           else Inr (recency_of_days e \<lfloor>(clock w + drift e (reads w) - stamp pd) / 86400\<rfloor> dd)),
      snd (time_time e w))"
  using assms
  by (simp add: calculate_recency_score_def time_time_def Let_def split: option.splits)

lemma calculate_recency_score_world:
  "snd (calculate_recency_score e r article w) = w \<or>
   snd (calculate_recency_score e r article w) = snd (time_time e w)"
  by (auto simp: calculate_recency_score_def Let_def
      split: option.splits pyval.splits sum.splits prod.splits)

lemma calculate_recency_score_heap [simp]:
  "heap (snd (calculate_recency_score e r article w)) = heap w"
  using calculate_recency_score_world[of e r article w] by auto

text \<open>
  C7 (as the code has it).  \<^verbatim>\<open>load\<close> does not validate the recency decay: whatever value a
  user configuration (a mapping with a \<^verbatim>\<open>ranking\<close> mapping in it) gives to
  \<^verbatim>\<open>ranking.recency_decay_days\<close> is what the loaded configuration returns, and \<^verbatim>\<open>load\<close>
  has no failing outcome.  For an article whose date parses to a naive \<^verbatim>\<open>datetime\<close>, a
  decay of zero raises \<^verbatim>\<open>ZeroDivisionError\<close> in \<^verbatim>\<open>_calculate_recency_score\<close>, per call, and a
  negative decay \<open>x\<close> raises nothing and gives the score \<^verbatim>\<open>np.exp\<close> of \<open>days / |x|\<close>.
\<close>

theorem decay_not_validated:
  assumes "distinct (map fst u)" and "map_of u ''ranking'' = Some (PDict rk)"
    and "distinct (map fst rk)" and "map_of rk ''recency_decay_days'' = Some d"
    and "map_of article ''published'' = Some (PStr s)"
    and "fromisoformat e (replace_Z s) = Inr pd" and "\<not> aware pd"
  shows "get (load (Some (Inr (PDict u)))) ''ranking.recency_decay_days'' (PInt 730) = d \<and>
         (num_of d = Some 0 \<longrightarrow>
            fst (calculate_recency_score e (ArticleRanker (load (Some (Inr (PDict u)))) given)
                   article w) = Inl ZeroDivisionError) \<and>
         (\<forall>x. num_of d = Some x \<and> x < 0 \<longrightarrow>
            (\<exists>days. fst (calculate_recency_score e
                            (ArticleRanker (load (Some (Inr (PDict u)))) given) article w)
                      = Inr (np_exp e (real_of_int days / \<bar>x\<bar>))))"
proof -
  have k: "get (load (Some (Inr (PDict u)))) ''ranking.recency_decay_days'' (PInt 730) = d"
    using load_keeps_decay[OF assms(1-4)] .
  have c: "config (ArticleRanker (load (Some (Inr (PDict u)))) given)
             = load (Some (Inr (PDict u)))"
    by (simp add: ArticleRanker_def)
  have neg: "recency_of_days e D x = np_exp e (real_of_int D / \<bar>x\<bar>)" if "x < 0" for D x
    using that by (simp add: recency_of_days_def)
  show ?thesis
    unfolding calculate_recency_score_naive[OF assms(5-7)] c k
    using neg by (auto simp: k)
qed

theorem decay_not_validated_witness:
  "distinct (map fst zero_decay) \<and>
   map_of zero_decay ''ranking'' = Some (PDict [(''recency_decay_days'', PInt 0)]) \<and>
   distinct (map fst negative_decay) \<and>
   map_of negative_decay ''ranking'' = Some (PDict [(''recency_decay_days'', PInt (- 30))]) \<and>
   map_of dated_article ''published'' = Some (PStr ''2024-01-01'') \<and>
   fromisoformat ex_env (replace_Z ''2024-01-01'') = Inr \<lparr>stamp = 1704067200, aware = False\<rparr> \<and>
   num_of (PInt 0) = Some 0 \<and> num_of (PInt (- 30)) = Some (- 30) \<and>
   get (load (Some (Inr (PDict zero_decay)))) ''ranking.recency_decay_days'' (PInt 730) = PInt 0 \<and>
   fst (calculate_recency_score ex_env
          (ArticleRanker (load (Some (Inr (PDict zero_decay)))) None) dated_article ex_world)
     = Inl ZeroDivisionError \<and>
   get (load (Some (Inr (PDict negative_decay)))) ''ranking.recency_decay_days'' (PInt 730)
     = PInt (- 30) \<and>
   (\<exists>days. fst (calculate_recency_score ex_env
                  (ArticleRanker (load (Some (Inr (PDict negative_decay)))) None)
                  dated_article ex_world)
            = Inr (np_exp ex_env (real_of_int days / 30)))"
proof -
  have p: "map_of dated_article ''published'' = Some (PStr ''2024-01-01'')"
    by (simp add: dated_article_def)
  have f: "fromisoformat ex_env (replace_Z ''2024-01-01'')
             = Inr \<lparr>stamp = 1704067200, aware = False\<rparr>"
    by (simp add: ex_env_def ex_fromisoformat_def replace_Z_def)
  have n: "\<not> aware \<lparr>stamp = 1704067200, aware = False\<rparr>" by simp
  have z: "distinct (map fst zero_decay)"
    "map_of zero_decay ''ranking'' = Some (PDict [(''recency_decay_days'', PInt 0)])"
    by (simp_all add: zero_decay_def)
  have m: "distinct (map fst negative_decay)"
    "map_of negative_decay ''ranking'' = Some (PDict [(''recency_decay_days'', PInt (- 30))])"
    by (simp_all add: negative_decay_def)
  have r: "distinct (map fst [(''recency_decay_days'', PInt i)])"
    "map_of [(''recency_decay_days'', PInt i)] ''recency_decay_days'' = Some (PInt i)" for i
    by simp_all
  note a = decay_not_validated[OF z r p f n, of None ex_world]
  note b = decay_not_validated[OF m r p f n, of None ex_world]
  from b have "\<exists>days. fst (calculate_recency_score ex_env
                  (ArticleRanker (load (Some (Inr (PDict negative_decay)))) None)
                  dated_article ex_world)
            = Inr (np_exp ex_env (real_of_int days / 30))"
    by simp
  with a b p f z m show ?thesis by simp
qed

text \<open>
  A configuration file that sets the decay to zero is loaded as it is; the division
  by zero appears when the first dated article is scored.
\<close>

theorem zero_decay_accepted:
  "get (load (Some (Inr (PDict zero_decay)))) ''ranking.recency_decay_days'' (PInt 730) = PInt 0 \<and>
   fst (calculate_recency_score ex_env
          (ArticleRanker (load (Some (Inr (PDict zero_decay)))) None) dated_article ex_world)
     = Inl ZeroDivisionError"
proof -
  have l: "load (Some (Inr (PDict zero_decay))) =
             (''ranking'', PDict [(''weights'', PDict default_weights),
                                  (''recency_decay_days'', PInt 0)]) # tl get_default_config"
    by (simp add: load_def zero_decay_def get_default_config_def default_ranking_def
          dict_set_def)
  have g: "get (load (Some (Inr (PDict zero_decay)))) ''ranking.recency_decay_days'' (PInt 730)
             = PInt 0"
    unfolding l by (simp add: get_def)
  show ?thesis
    using g
    by (simp add: calculate_recency_score_def ArticleRanker_def dated_article_def ex_env_def
          ex_fromisoformat_def replace_Z_def time_time_def ex_world_def Let_def)
qed

section \<open>The fetcher\<close>

subsection \<open>The rate limiter\<close>

lemma rate_limit_heap_sent:
  "heap (snd (rate_limit e f w)) = heap w \<and> sent (snd (rate_limit e f w)) = sent w"
  by (simp add: rate_limit_def time_time_def time_sleep_def Let_def
      split: option.splits prod.splits)

text \<open>
  When the clock never runs backwards, a pass through the rate limiter ends with the
  clock at least one delay after the previous stored timestamp, and stores that
  reading of the clock.
\<close>

lemma rate_limit_Inr:
  assumes "rate_limit e f w = (Inr u, w1)" and "\<forall>n. 0 \<le> drift e n"
  shows "\<exists>delay. num_of (rate_limit_delay f) = Some delay \<and>
           last_request_time w + delay \<le> last_request_time w1 \<and>
           last_request_time w1 = clock w1"
proof -
  from assms(1) obtain delay where d: "num_of (rate_limit_delay f) = Some delay"
    by (auto simp: rate_limit_def Let_def split: option.splits prod.splits)
  have a: "0 \<le> drift e (reads w)" and b: "0 \<le> drift e (Suc (reads w))"
    using assms(2) by auto
  from assms(1) d a b have "last_request_time w + delay \<le> last_request_time w1"
    by (auto simp: rate_limit_def time_time_def time_sleep_def Let_def
        split: prod.splits if_splits)
  moreover from assms(1) d have "last_request_time w1 = clock w1"
    by (auto simp: rate_limit_def time_time_def time_sleep_def Let_def
        split: prod.splits if_splits)
  ultimately show ?thesis using d by blast
qed

lemma rate_limit_clock:
  assumes "\<forall>n. 0 \<le> drift e n"
  shows "clock w \<le> clock (snd (rate_limit e f w))"
proof -
  have a: "0 \<le> drift e (reads w)" and b: "0 \<le> drift e (Suc (reads w))"
    using assms by auto
  then show ?thesis
    by (auto simp: rate_limit_def time_time_def time_sleep_def Let_def
        split: option.splits prod.splits)
qed

subsection \<open>The three lookups\<close>

lemma http_get_fields [simp]:
  "heap (snd (http_get e rq w)) = heap w"
  "last_request_time (snd (http_get e rq w)) = last_request_time w"
  "sent (snd (http_get e rq w)) = sent w @ [(clock w, rq)]"
  "clock (snd (http_get e rq w)) = clock w"
  "fst (http_get e rq w) = requests_get e (length (sent w)) rq"
  by (simp_all add: http_get_def)

lemma fetch_as_lookup:
  "fetch_by_doi e f doi w = lookup e f (GetDOI doi) count_of_response w"
  "fetch_by_arxiv_id e f aid w = lookup e f (GetArxiv aid) count_of_response w"
  "fetch_by_title e f title w = lookup e f (SearchTitle title) (count_of_search e title) w"
  by (auto simp: fetch_by_doi_def fetch_by_arxiv_id_def fetch_by_title_def lookup_def
        http_get_def split: prod.splits sum.splits)

lemma lookup_heap [simp]: "heap (snd (lookup e f rq rd w)) = heap w"
  using rate_limit_heap_sent[of e f w]
  by (auto simp: lookup_def split: prod.splits sum.splits)

lemma lookup_numeric:
  assumes "num_of (rate_limit_delay f) = Some d"
  shows "\<exists>w1. rate_limit e f w = (Inr (), w1) \<and>
           lookup e f rq rd w =
             (rd (requests_get e (length (sent w)) rq),
              w1\<lparr>sent := sent w @ [(clock w1, rq)]\<rparr>)"
proof -
  obtain res w1 where r: "rate_limit e f w = (res, w1)" by (cases "rate_limit e f w")
  with assms have "res = Inr ()"
    by (auto simp: rate_limit_def Let_def split: prod.splits)
  moreover have "sent w1 = sent w" using rate_limit_heap_sent[of e f w] r by simp
  ultimately show ?thesis using r by (simp add: lookup_def http_get_def)
qed

lemma lookup_sent:
  assumes "num_of (rate_limit_delay f) = Some d"
  shows "fst (lookup e f rq rd w) = rd (requests_get e (length (sent w)) rq) \<and>
         map snd (sent (snd (lookup e f rq rd w))) = map snd (sent w) @ [rq]"
  using lookup_numeric[OF assms, of e w rq rd] by auto

subsection \<open>The fallback chain\<close>

lemma try_title_heap [simp]: "heap (snd (try_title e f article w)) = heap w"
  by (simp add: try_title_def fetch_as_lookup)

lemma try_arxiv_heap [simp]: "heap (snd (try_arxiv e f article w)) = heap w"
proof -
  let ?l = "lookup e f (GetArxiv (dict_get article ''arxiv_id'' PNone)) count_of_response w"
  have "heap (snd ?l) = heap w" by simp
  then show ?thesis
    by (cases ?l) (simp add: try_arxiv_def fetch_as_lookup)
qed

lemma get_citation_count_heap [simp]: "heap (snd (get_citation_count e f a w)) = heap w"
proof -
  let ?l = "lookup e f (GetDOI (dict_get (heap w a) ''doi'' PNone)) count_of_response w"
  have "heap (snd ?l) = heap w" by simp
  then show ?thesis
    by (cases ?l) (simp add: get_citation_count_def fetch_as_lookup Let_def)
qed

lemma get_citation_count_cached:
  "dict_get (heap w a) ''citation_count'' PNone \<noteq> PNone \<Longrightarrow>
   get_citation_count e f a w = (dict_get (heap w a) ''citation_count'' PNone, w)"
  by (simp add: get_citation_count_def Let_def)

lemma try_title_sent:
  assumes "num_of (rate_limit_delay f) = Some d"
  shows "\<exists>more. map snd (sent (snd (try_title e f article w))) = map snd (sent w) @ more \<and>
           (more = [] \<or> more = [SearchTitle (dict_get article ''title'' PNone)])"
proof (cases "has_truthy article ''title''")
  case True
  then show ?thesis
    using lookup_sent[OF assms, of e "SearchTitle (dict_get article ''title'' PNone)"
        "count_of_search e (dict_get article ''title'' PNone)" w]
    by (simp add: try_title_def fetch_as_lookup)
next
  case False
  then show ?thesis by (simp add: try_title_def)
qed

lemma try_arxiv_sent:
  assumes "num_of (rate_limit_delay f) = Some d" and "has_truthy article ''arxiv_id''"
  shows "\<exists>more. map snd (sent (snd (try_arxiv e f article w))) =
                  map snd (sent w) @ GetArxiv (dict_get article ''arxiv_id'' PNone) # more \<and>
           (more = [] \<or> more = [SearchTitle (dict_get article ''title'' PNone)])"
proof -
  let ?rq = "GetArxiv (dict_get article ''arxiv_id'' PNone)"
  obtain c w1 where l: "lookup e f ?rq count_of_response w = (c, w1)"
    by (cases "lookup e f ?rq count_of_response w")
  with lookup_sent[OF assms(1), of e ?rq count_of_response w]
  have s1: "map snd (sent w1) = map snd (sent w) @ [?rq]" by simp
  show ?thesis
  proof (cases "c = PNone")
    case True
    with l assms(2) have "try_arxiv e f article w = try_title e f article w1"
      by (simp add: try_arxiv_def fetch_as_lookup)
    with try_title_sent[OF assms(1), of e article w1] s1 show ?thesis by auto
  next
    case False
    with l assms(2) have "try_arxiv e f article w = (c, w1)"
      by (simp add: try_arxiv_def fetch_as_lookup)
    with s1 show ?thesis by simp
  qed
qed

text \<open>An article with a DOI and no cached count: the DOI lookup comes first.\<close>

lemma get_citation_count_doi_first:
  assumes "num_of (rate_limit_delay f) = Some d"
    and "dict_get (heap w a) ''citation_count'' PNone = PNone"
    and "has_truthy (heap w a) ''doi''"
  shows "\<exists>w1. map snd (sent w1) = map snd (sent w) @ [GetDOI (dict_get (heap w a) ''doi'' PNone)] \<and>
           get_citation_count e f a w =
             (let c = count_of_response
                        (requests_get e (length (sent w))
                           (GetDOI (dict_get (heap w a) ''doi'' PNone)))
              in if c \<noteq> PNone then (c, w1) else try_arxiv e f (heap w a) w1)"
proof -
  let ?rq = "GetDOI (dict_get (heap w a) ''doi'' PNone)"
  obtain c w1 where l: "lookup e f ?rq count_of_response w = (c, w1)"
    by (cases "lookup e f ?rq count_of_response w")
  with lookup_sent[OF assms(1), of e ?rq count_of_response w]
  have c: "c = count_of_response (requests_get e (length (sent w)) ?rq)"
    and s1: "map snd (sent w1) = map snd (sent w) @ [?rq]" by simp_all
  have "get_citation_count e f a w =
          (if c \<noteq> PNone then (c, w1) else try_arxiv e f (heap w a) w1)"
    using assms(2,3) l by (simp add: get_citation_count_def fetch_as_lookup Let_def)
  with c s1 show ?thesis by (auto simp: Let_def)
qed

lemma get_citation_count_doi_hit:
  assumes "num_of (rate_limit_delay f) = Some d"
    and "dict_get (heap w a) ''citation_count'' PNone = PNone"
    and "has_truthy (heap w a) ''doi''"
    and "count_of_response (requests_get e (length (sent w))
           (GetDOI (dict_get (heap w a) ''doi'' PNone))) \<noteq> PNone"
  shows "fst (get_citation_count e f a w) =
           count_of_response (requests_get e (length (sent w))
             (GetDOI (dict_get (heap w a) ''doi'' PNone))) \<and>
         map snd (sent (snd (get_citation_count e f a w))) =
           map snd (sent w) @ [GetDOI (dict_get (heap w a) ''doi'' PNone)]"
  using get_citation_count_doi_first[OF assms(1-3), of e] assms(4)
  by (auto simp: Let_def)

lemma get_citation_count_doi_miss:
  assumes "num_of (rate_limit_delay f) = Some d"
    and "dict_get (heap w a) ''citation_count'' PNone = PNone"
    and "has_truthy (heap w a) ''doi''" and "has_truthy (heap w a) ''arxiv_id''"
    and "count_of_response (requests_get e (length (sent w))
           (GetDOI (dict_get (heap w a) ''doi'' PNone))) = PNone"
  shows "\<exists>more. map snd (sent (snd (get_citation_count e f a w))) =
                  map snd (sent w) @ GetDOI (dict_get (heap w a) ''doi'' PNone)
                    # GetArxiv (dict_get (heap w a) ''arxiv_id'' PNone) # more \<and>
                (more = [] \<or> more = [SearchTitle (dict_get (heap w a) ''title'' PNone)])"
proof -
  from get_citation_count_doi_first[OF assms(1-3), of e] assms(5) obtain w1 where
    s1: "map snd (sent w1) = map snd (sent w) @ [GetDOI (dict_get (heap w a) ''doi'' PNone)]"
    and g: "get_citation_count e f a w = try_arxiv e f (heap w a) w1"
    by (auto simp: Let_def)
  from try_arxiv_sent[OF assms(1,4), of e w1] s1 g show ?thesis by auto
qed

text \<open>
  C3.  For an article that carries a DOI and an arXiv identifier (and no cached
  count), looked up through a fetcher with a numeric delay: when the registry answers
  the DOI request with status 404, the next request is the arXiv lookup, and a title
  search follows at most after it; when the DOI request yields a count that is not
  \<^verbatim>\<open>None\<close>, that count is returned and the DOI request is the only one sent.
\<close>

theorem fallback_order:
  assumes "num_of (rate_limit_delay f) = Some d"
    and "dict_get (heap w a) ''citation_count'' PNone = PNone"
    and "has_truthy (heap w a) ''doi''" and "has_truthy (heap w a) ''arxiv_id''"
    and "doi = dict_get (heap w a) ''doi'' PNone"
    and "arxiv_id = dict_get (heap w a) ''arxiv_id'' PNone"
    and "title = dict_get (heap w a) ''title'' PNone"
    and "answer = requests_get e (length (sent w)) (GetDOI doi)"
  shows "((\<exists>resp. answer = Inr resp \<and> status_code resp = 404) \<longrightarrow>
            (\<exists>more. map snd (sent (snd (get_citation_count e f a w))) =
                      map snd (sent w) @ GetDOI doi # GetArxiv arxiv_id # more \<and>
                    (more = [] \<or> more = [SearchTitle title]))) \<and>
         (count_of_response answer \<noteq> PNone \<longrightarrow>
            fst (get_citation_count e f a w) = count_of_response answer \<and>
            map snd (sent (snd (get_citation_count e f a w))) = map snd (sent w) @ [GetDOI doi])"
proof (intro conjI impI)
  assume "\<exists>resp. answer = Inr resp \<and> status_code resp = 404"
  then have "count_of_response answer = PNone"
    by (auto simp: count_of_response_def)
  then show "\<exists>more. map snd (sent (snd (get_citation_count e f a w))) =
                      map snd (sent w) @ GetDOI doi # GetArxiv arxiv_id # more \<and>
                    (more = [] \<or> more = [SearchTitle title])"
    using get_citation_count_doi_miss[OF assms(1-4), of e] assms(5-8) by simp
next
  assume h: "count_of_response answer \<noteq> PNone"
  then show "fst (get_citation_count e f a w) = count_of_response answer"
    using get_citation_count_doi_hit[OF assms(1-3), of e] assms(5,8) by simp
  from h show "map snd (sent (snd (get_citation_count e f a w))) = map snd (sent w) @ [GetDOI doi]"
    using get_citation_count_doi_hit[OF assms(1-3), of e] assms(5,8) by simp
qed

lemma ex_fetcher_delay: "num_of (rate_limit_delay ex_fetcher) = Some (1 / 10)"
  by (simp add: ex_fetcher_def)

lemma ex_article_14:
  "dict_get (heap ex_world 14) ''citation_count'' PNone = PNone"
  "has_truthy (heap ex_world 14) ''doi''"
  "has_truthy (heap ex_world 14) ''arxiv_id''"
  "dict_get (heap ex_world 14) ''doi'' PNone = PStr ''10.1000/unknown''"
  "dict_get (heap ex_world 14) ''arxiv_id'' PNone = PStr ''1706.03762''"
  "dict_get (heap ex_world 14) ''title'' PNone = PStr ''Epsilon''"
  by (simp_all add: ex_world_def ex_heap_def dict_get_def has_truthy_def)

lemma ex_article_15:
  "dict_get (heap ex_world 15) ''citation_count'' PNone = PNone"
  "has_truthy (heap ex_world 15) ''doi''"
  "has_truthy (heap ex_world 15) ''arxiv_id''"
  "dict_get (heap ex_world 15) ''doi'' PNone = PStr ''10.1000/known''"
  "dict_get (heap ex_world 15) ''arxiv_id'' PNone = PStr ''1706.03762''"
  "dict_get (heap ex_world 15) ''title'' PNone = PStr ''Zeta''"
  by (simp_all add: ex_world_def ex_heap_def dict_get_def has_truthy_def)

lemma ex_answers:
  "requests_get ex_env n (GetDOI (PStr ''10.1000/unknown''))
     = Inr \<lparr>status_code = 404, json = Inl ValueError\<rparr>"
  "count_of_response (requests_get ex_env n (GetDOI (PStr ''10.1000/unknown''))) = PNone"
  "count_of_response (requests_get ex_env n (GetDOI (PStr ''10.1000/known''))) = PInt 5"
  by (simp_all add: ex_env_def ex_requests_get_def count_of_response_def dict_get_def)

theorem fallback_order_witness:
  "num_of (rate_limit_delay ex_fetcher) = Some (1 / 10) \<and>
   dict_get (heap ex_world 14) ''citation_count'' PNone = PNone \<and>
   has_truthy (heap ex_world 14) ''doi'' \<and> has_truthy (heap ex_world 14) ''arxiv_id'' \<and>
   requests_get ex_env (length (sent ex_world)) (GetDOI (PStr ''10.1000/unknown''))
     = Inr \<lparr>status_code = 404, json = Inl ValueError\<rparr> \<and>
   (\<exists>more. map snd (sent (snd (get_citation_count ex_env ex_fetcher 14 ex_world))) =
             GetDOI (PStr ''10.1000/unknown'') # GetArxiv (PStr ''1706.03762'') # more \<and>
           (more = [] \<or> more = [SearchTitle (PStr ''Epsilon'')])) \<and>
   dict_get (heap ex_world 15) ''citation_count'' PNone = PNone \<and>
   has_truthy (heap ex_world 15) ''doi'' \<and> has_truthy (heap ex_world 15) ''arxiv_id'' \<and>
   count_of_response (requests_get ex_env (length (sent ex_world))
     (GetDOI (PStr ''10.1000/known''))) = PInt 5 \<and>
   fst (get_citation_count ex_env ex_fetcher 15 ex_world) = PInt 5 \<and>
   map snd (sent (snd (get_citation_count ex_env ex_fetcher 15 ex_world)))
     = [GetDOI (PStr ''10.1000/known'')]"
proof -
  note m = fallback_order[OF ex_fetcher_delay ex_article_14(1-3) ex_article_14(4-6)[symmetric]
      refl, of ex_env]
  note h = fallback_order[OF ex_fetcher_delay ex_article_15(1-3) ex_article_15(4-6)[symmetric]
      refl, of ex_env]
  have s: "sent ex_world = []" by (simp add: ex_world_def)
  have "\<exists>resp. requests_get ex_env (length (sent ex_world)) (GetDOI (PStr ''10.1000/unknown''))
           = Inr resp \<and> status_code resp = 404"
    by (simp add: ex_answers)
  with m have 1: "\<exists>more. map snd (sent (snd (get_citation_count ex_env ex_fetcher 14 ex_world))) =
             GetDOI (PStr ''10.1000/unknown'') # GetArxiv (PStr ''1706.03762'') # more \<and>
           (more = [] \<or> more = [SearchTitle (PStr ''Epsilon'')])"
    by (simp add: s)
  from h have 2: "fst (get_citation_count ex_env ex_fetcher 15 ex_world) = PInt 5 \<and>
      map snd (sent (snd (get_citation_count ex_env ex_fetcher 15 ex_world)))
        = [GetDOI (PStr ''10.1000/known'')]"
    by (simp add: ex_answers s)
  from 1 2 show ?thesis
    by (simp add: ex_fetcher_delay ex_article_14 ex_article_15 ex_answers)
qed

subsection \<open>Spacing of the network calls\<close>

lemma progress_refl: "progress w w"
  by (simp add: progress_def)

lemma progress_trans:
  assumes "progress u v" and "progress v w"
  shows "progress u w"
proof -
  from assms obtain n1 n2 where
    1: "clock u \<le> clock v" "sent v = sent u @ n1" "\<forall>t \<in> fst ` set n1. clock u \<le> t" and
    2: "clock v \<le> clock w" "sent w = sent v @ n2" "\<forall>t \<in> fst ` set n2. clock v \<le> t"
    unfolding progress_def by blast
  have "sent w = sent u @ (n1 @ n2)" using 1(2) 2(2) by simp
  moreover have "\<forall>t \<in> fst ` set (n1 @ n2). clock u \<le> t"
    using 1(1,3) 2(3) by fastforce
  moreover have "clock u \<le> clock w" using 1(1) 2(1) by simp
  ultimately show ?thesis unfolding progress_def by blast
qed

lemma keeps_pace_refl: "keeps_pace d w w"
  by (simp add: keeps_pace_def progress_refl)

lemma keeps_pace_trans: "keeps_pace d u v \<Longrightarrow> keeps_pace d v w \<Longrightarrow> keeps_pace d u w"
  unfolding keeps_pace_def using progress_trans by blast

text \<open>A step that only lets time pass.\<close>

lemma keeps_pace_wait:
  assumes "sent w' = sent w" and "last_request_time w' = last_request_time w"
    and "clock w \<le> clock w'"
  shows "keeps_pace d w w'"
proof -
  have "progress w w'" using assms by (simp add: progress_def)
  moreover have "spaced d w \<longrightarrow> spaced d w'"
    using assms by (fastforce simp: spaced_def)
  ultimately show ?thesis by (simp add: keeps_pace_def)
qed

lemma lookup_keeps_pace:
  assumes mono: "\<forall>n. 0 \<le> drift e n" and num: "num_of (rate_limit_delay f) = Some d"
  shows "keeps_pace d w (snd (lookup e f rq rd w))"
proof -
  from lookup_numeric[OF num, of e w rq rd] obtain w1 where
    rl: "rate_limit e f w = (Inr (), w1)" and
    l: "lookup e f rq rd w = (rd (requests_get e (length (sent w)) rq),
              w1\<lparr>sent := sent w @ [(clock w1, rq)]\<rparr>)" by blast
  from rate_limit_Inr[OF rl mono] num
  have step: "last_request_time w + d \<le> last_request_time w1"
    and now: "last_request_time w1 = clock w1" by simp_all
  have up: "clock w \<le> clock w1" using rate_limit_clock[OF mono, of w f] rl by simp
  have pr: "progress w (w1\<lparr>sent := sent w @ [(clock w1, rq)]\<rparr>)"
    using up by (simp add: progress_def)
  have sp: "spaced d (w1\<lparr>sent := sent w @ [(clock w1, rq)]\<rparr>)" if s: "spaced d w"
  proof (cases "sent w = []")
    case True
    then show ?thesis using now by (simp add: spaced_def)
  next
    case False
    then have "last (map fst (sent w)) = last_request_time w"
      using s by (simp add: spaced_def last_map)
    moreover have "\<forall>t \<in> fst ` set (sent w). t \<le> clock w1"
      using s up by (fastforce simp: spaced_def)
    ultimately show ?thesis
      using s step now False by (simp add: spaced_def successively_append_iff)
  qed
  show ?thesis unfolding l keeps_pace_def using pr sp by simp
qed

lemma try_title_keeps_pace:
  assumes "\<forall>n. 0 \<le> drift e n" and "num_of (rate_limit_delay f) = Some d"
  shows "keeps_pace d w (snd (try_title e f article w))"
  using lookup_keeps_pace[OF assms] keeps_pace_refl
  by (simp add: try_title_def fetch_as_lookup)

lemma try_arxiv_keeps_pace:
  assumes "\<forall>n. 0 \<le> drift e n" and "num_of (rate_limit_delay f) = Some d"
  shows "keeps_pace d w (snd (try_arxiv e f article w))"
proof -
  let ?l = "lookup e f (GetArxiv (dict_get article ''arxiv_id'' PNone)) count_of_response w"
  have 1: "keeps_pace d w (snd ?l)" using lookup_keeps_pace[OF assms] .
  have 2: "keeps_pace d w (snd (try_title e f article (snd ?l)))"
    using keeps_pace_trans[OF 1 try_title_keeps_pace[OF assms]] .
  show ?thesis
    using 1 2 try_title_keeps_pace[OF assms, of w article]
    by (cases ?l) (simp add: try_arxiv_def fetch_as_lookup)
qed

lemma get_citation_count_keeps_pace:
  assumes "\<forall>n. 0 \<le> drift e n" and "num_of (rate_limit_delay f) = Some d"
  shows "keeps_pace d w (snd (get_citation_count e f a w))"
proof -
  let ?l = "lookup e f (GetDOI (dict_get (heap w a) ''doi'' PNone)) count_of_response w"
  have 1: "keeps_pace d w (snd ?l)" using lookup_keeps_pace[OF assms] .
  have 2: "keeps_pace d w (snd (try_arxiv e f (heap w a) (snd ?l)))"
    using keeps_pace_trans[OF 1 try_arxiv_keeps_pace[OF assms]] .
  show ?thesis
    using 1 2 try_arxiv_keeps_pace[OF assms, of w "heap w a"] keeps_pace_refl[of d w]
    by (cases ?l) (simp add: get_citation_count_def fetch_as_lookup Let_def)
qed

lemma successively_gap:
  "successively (\<lambda>s t. s + d \<le> t) ts \<Longrightarrow> ts \<noteq> [] \<Longrightarrow>
   hd ts + real (length ts - 1) * d \<le> last (ts :: real list)"
proof (induction ts rule: induct_list012)
  case (3 x y zs)
  then have "hd (y # zs) + real (length (y # zs) - 1) * d \<le> last (y # zs)" by simp
  moreover have "x + d \<le> y" using 3 by simp
  ultimately show ?case by (simp add: algebra_simps)
qed simp_all

text \<open>
  What a step that keeps pace means for the calls it has added: they are spaced, and
  they fit between the clock before and the clock after.
\<close>

lemma keeps_pace_elapsed:
  assumes "keeps_pace d w w'" and "spaced d w"
  shows "spaced d w' \<and> clock w \<le> clock w' \<and>
         (\<exists>new. sent w' = sent w @ new \<and>
                successively (\<lambda>s t. s + d \<le> t) (map fst new) \<and>
                (\<forall>t \<in> fst ` set new. clock w \<le> t \<and> t \<le> clock w') \<and>
                (new \<noteq> [] \<longrightarrow> real (length new - 1) * d \<le> clock w' - clock w))"
proof -
  from assms have sp: "spaced d w'" and pr: "progress w w'"
    by (simp_all add: keeps_pace_def)
  from pr obtain new where
    up: "clock w \<le> clock w'" and n: "sent w' = sent w @ new"
    and lo: "\<forall>t \<in> fst ` set new. clock w \<le> t"
    unfolding progress_def by blast
  have su: "successively (\<lambda>s t. s + d \<le> t) (map fst new)"
    using sp n by (simp add: spaced_def successively_append_iff)
  have "\<forall>t \<in> fst ` set (sent w'). t \<le> clock w'"
    using sp by (simp add: spaced_def)
  then have hi: "\<forall>t \<in> fst ` set new. t \<le> clock w'"
    unfolding n by auto
  have gap: "real (length new - 1) * d \<le> clock w' - clock w" if ne: "new \<noteq> []"
  proof -
    have "hd (map fst new) \<in> fst ` set new" "last (map fst new) \<in> fst ` set new"
      using ne by (simp_all add: hd_map last_map)
    then have "clock w \<le> hd (map fst new)" "last (map fst new) \<le> clock w'"
      using lo hi by blast+
    moreover have "hd (map fst new) + real (length (map fst new) - 1) * d \<le> last (map fst new)"
      using successively_gap[OF su] ne by simp
    ultimately show ?thesis by simp
  qed
  from sp up n su lo hi gap show ?thesis by blast
qed

section \<open>Score normalisation\<close>

lemma normalized_citations_int:
  assumes "num_of mx = Some m" and "0 < m" and "0 \<le> c"
  shows "normalized_citations (PInt c) mx =
           Inr (min 1 (max 0 (ln (1 + real_of_int c) / ln (1 + m))))"
  using assms by (auto simp: normalized_citations_def)

text \<open>
  C5.  For a normalisation maximum \<open>m > 0\<close> and integer counts \<open>0 \<le> c \<le> c'\<close>, the
  citation score of a resolved count is defined, is \<open>0\<close> at count \<open>0\<close>, does not
  decrease from \<open>c\<close> to \<open>c'\<close>, and never exceeds \<open>1\<close>, whether or not the count exceeds
  \<open>m\<close>.
\<close>

theorem citation_score_bounds:
  assumes "num_of mx = Some m" and "0 < m" and "0 \<le> c" and "c \<le> c'"
  shows "normalized_citations (PInt 0) mx = Inr 0 \<and>
         (\<exists>s s'. normalized_citations (PInt c) mx = Inr s \<and>
                  normalized_citations (PInt c') mx = Inr s' \<and>
                  0 \<le> s \<and> s \<le> s' \<and> s' \<le> 1)"
proof -
  have lm: "0 < ln (1 + m)" using assms(2) by simp
  have c': "0 \<le> c'" using assms by simp
  have mono: "ln (1 + real_of_int c) / ln (1 + m) \<le> ln (1 + real_of_int c') / ln (1 + m)"
    using assms lm by (intro divide_right_mono) auto
  have "normalized_citations (PInt 0) mx = Inr 0"
    by (simp add: normalized_citations_def)
  moreover have "min 1 (max 0 (ln (1 + real_of_int c) / ln (1 + m)))
        \<le> min 1 (max 0 (ln (1 + real_of_int c') / ln (1 + m)))"
    using mono by (auto simp: min_def max_def)
  ultimately show ?thesis
    using normalized_citations_int[OF assms(1,2,3)] normalized_citations_int[OF assms(1,2) c']
    by auto
qed

theorem citation_score_bounds_witness:
  "num_of (PInt 1000) = Some 1000 \<and> (0::real) < 1000 \<and> (0::int) \<le> 999 \<and> (999::int) \<le> 2000 \<and>
   normalized_citations (PInt 0) (PInt 1000) = Inr 0 \<and>
   (\<exists>s s'. normalized_citations (PInt 999) (PInt 1000) = Inr s \<and>
            normalized_citations (PInt 2000) (PInt 1000) = Inr s' \<and>
            0 \<le> s \<and> s \<le> s' \<and> s' \<le> 1)"
  using citation_score_bounds[of "PInt 1000" 1000 999 2000] by simp

lemma ex_np_exp_zero: "np_exp ex_env 0 = 1"
  by (simp add: ex_env_def ex_np_exp_def)

lemma ex_np_exp_mono: "mono (np_exp ex_env)"
  by (auto simp: mono_def ex_env_def ex_np_exp_def)

lemma ex_np_exp_tendsto: "(np_exp ex_env \<longlongrightarrow> 0) at_bot"
proof (rule tendsto_eventually)
  have "\<forall>x \<le> - 747. np_exp ex_env x = 0"
    by (simp add: ex_env_def ex_np_exp_def)
  then show "eventually (\<lambda>x. np_exp ex_env x = 0) at_bot"
    unfolding eventually_at_bot_linorder by blast
qed

lemma recency_tendsto:
  assumes "0 < d" and "(np_exp e \<longlongrightarrow> 0) at_bot"
  shows "((\<lambda>a. recency_of_days e a d) \<longlongrightarrow> 0) at_top"
proof -
  have 1: "filterlim (\<lambda>x::real. x / d) at_top at_top"
    using assms(1) by (simp add: filterlim_at_top_mult_tendsto_pos filterlim_ident
       filterlim_tendsto_pos_mult_at_top[of "\<lambda>_. 1 / d" "1 / d" _ "\<lambda>x. x", simplified])
  have 2: "filterlim (\<lambda>x::real. - (x / d)) at_bot at_top"
    using 1 by (simp add: filterlim_uminus_at_bot)
  have 3: "((\<lambda>x::real. np_exp e (- (x / d))) \<longlongrightarrow> 0) at_top"
    using filterlim_compose[OF assms(2) 2] .
  have "((\<lambda>a::int. np_exp e (- (real_of_int a / d))) \<longlongrightarrow> 0) at_top"
    using filterlim_compose[OF 3 filterlim_real_of_int_at_top] .
  then show ?thesis by (simp add: recency_of_days_def)
qed

text \<open>
  C6 (as the code has it).  The recency score is \<^verbatim>\<open>np.exp\<close> of \<open>- age / d\<close>, in floating
  point.  For a decay constant \<open>d > 0\<close> and an exponential that is \<open>1\<close> at \<open>0\<close>, monotone,
  and tends to \<open>0\<close> at \<open>-\<infinity>\<close> (as that of \<^verbatim>\<open>numpy\<close> is), the score is \<open>1\<close> at age \<open>0\<close>, does
  not increase with the age, and tends to \<open>0\<close> as the age grows without bound.  It is
  not strictly decreasing: the exponential of \<^verbatim>\<open>numpy\<close> is exactly \<open>0\<close> below about
  \<open>- 745.13\<close>, so all ages beyond \<open>746 * d\<close> days share the score \<open>0\<close>.
\<close>

theorem recency_decay:
  assumes "0 < d" and "np_exp e 0 = 1" and "mono (np_exp e)"
    and "(np_exp e \<longlongrightarrow> 0) at_bot"
  shows "recency_of_days e 0 d = 1 \<and>
         (\<forall>a b. a \<le> b \<longrightarrow> recency_of_days e b d \<le> recency_of_days e a d) \<and>
         ((\<lambda>a. recency_of_days e a d) \<longlongrightarrow> 0) at_top"
proof (intro conjI allI impI)
  show "recency_of_days e 0 d = 1" using assms(2) by (simp add: recency_of_days_def)
next
  fix a b :: int assume "a \<le> b"
  then have "- real_of_int b / d \<le> - real_of_int a / d"
    using assms(1) by (simp add: divide_right_mono)
  then show "recency_of_days e b d \<le> recency_of_days e a d"
    using assms(3) by (simp add: recency_of_days_def mono_def)
next
  show "((\<lambda>a. recency_of_days e a d) \<longlongrightarrow> 0) at_top"
    using recency_tendsto[OF assms(1,4)] .
qed

theorem recency_decay_witness:
  "(0::real) < 730 \<and> np_exp ex_env 0 = 1 \<and> mono (np_exp ex_env) \<and>
   (np_exp ex_env \<longlongrightarrow> 0) at_bot \<and>
   recency_of_days ex_env 0 730 = 1 \<and>
   (365::int) \<le> 600000 \<and>
   recency_of_days ex_env 600000 730 \<le> recency_of_days ex_env 365 730 \<and>
   ((\<lambda>a. recency_of_days ex_env a 730) \<longlongrightarrow> 0) at_top"
proof -
  have h: "(0::real) < 730" by simp
  note th = recency_decay[OF h ex_np_exp_zero ex_np_exp_mono ex_np_exp_tendsto]
  from th have "(365::int) \<le> 600000 \<longrightarrow>
      recency_of_days ex_env 600000 730 \<le> recency_of_days ex_env 365 730"
    by blast
  then have "recency_of_days ex_env 600000 730 \<le> recency_of_days ex_env 365 730" by simp
  with th h ex_np_exp_zero ex_np_exp_mono ex_np_exp_tendsto show ?thesis by simp
qed

text \<open>
  C6 as the specification words it fails where the exponential underflows: under the
  default decay of \<open>730\<close> days, the ages \<open>600000\<close> and \<open>700000\<close> days (dates in the
  fourth and in the second century) both score exactly \<open>0\<close>, and so do the ages
  \<open>2130\<close> and \<open>2500\<close> under a decay of one day.
\<close>

theorem recency_underflow:
  "(0::real) < 730 \<and> (600000::int) < 700000 \<and>
   recency_of_days ex_env 600000 730 = 0 \<and> recency_of_days ex_env 700000 730 = 0 \<and>
   \<not> recency_of_days ex_env 700000 730 < recency_of_days ex_env 600000 730 \<and>
   (0::real) < 1 \<and> (2130::int) < 2500 \<and>
   recency_of_days ex_env 2130 1 = 0 \<and> recency_of_days ex_env 2500 1 = 0 \<and>
   \<not> recency_of_days ex_env 2500 1 < recency_of_days ex_env 2130 1"
  by (simp add: recency_of_days_def ex_env_def ex_np_exp_def)

section \<open>The citation signal and the cache\<close>

lemma calculate_citation_score_world:
  assumes "citation_fetcher r = Some f" and "truthy (is_citation_enabled (config r))"
  shows "snd (calculate_citation_score e r a w) =
           (if dict_get (heap w a) ''citation_count'' PNone \<noteq> PNone then w
            else if fst (get_citation_count e f a w) \<noteq> PNone
            then cache_count a (fst (get_citation_count e f a w))
                   (snd (get_citation_count e f a w))
            else snd (get_citation_count e f a w))"
  using assms
  by (simp add: calculate_citation_score_def Let_def split: prod.splits)

text \<open>The score is that of the cached count, or else of the count just looked up.\<close>

lemma calculate_citation_score_value:
  assumes "citation_fetcher r = Some f" and "truthy (is_citation_enabled (config r))"
  shows "fst (calculate_citation_score e r a w) =
           normalized_citations
             (if dict_get (heap w a) ''citation_count'' PNone \<noteq> PNone
              then dict_get (heap w a) ''citation_count'' PNone
              else fst (get_citation_count e f a w))
             (get_max_citations_for_normalization (config r))"
  using assms
  by (simp add: calculate_citation_score_def Let_def split: prod.splits)

text \<open>
  C4.  With a fetcher in place and citations enabled: a lookup for an article that
  carries a cached count other than \<^verbatim>\<open>None\<close> returns that count and leaves the whole state
  (the log of network calls included) as it was; and once the ranker has scored an
  article whose lookup resolved a count, a further lookup returns that count without
  touching the state, and so does a further scoring.
\<close>

theorem cached_count_no_network:
  assumes "citation_fetcher r = Some f" and "truthy (is_citation_enabled (config r))"
  shows "(dict_get (heap w a) ''citation_count'' PNone \<noteq> PNone \<longrightarrow>
            get_citation_count e f a w = (dict_get (heap w a) ''citation_count'' PNone, w)) \<and>
         (fst (get_citation_count e f a w) \<noteq> PNone \<longrightarrow>
            get_citation_count e f a (snd (calculate_citation_score e r a w)) =
              (fst (get_citation_count e f a w), snd (calculate_citation_score e r a w)) \<and>
            snd (calculate_citation_score e r a (snd (calculate_citation_score e r a w))) =
              snd (calculate_citation_score e r a w))"
proof (intro conjI impI)
  assume "dict_get (heap w a) ''citation_count'' PNone \<noteq> PNone"
  then show "get_citation_count e f a w = (dict_get (heap w a) ''citation_count'' PNone, w)"
    by (rule get_citation_count_cached)
next
  let ?c = "fst (get_citation_count e f a w)"
  let ?w1 = "snd (calculate_citation_score e r a w)"
  assume c: "?c \<noteq> PNone"
  have cached: "dict_get (heap ?w1 a) ''citation_count'' PNone = ?c"
  proof (cases "dict_get (heap w a) ''citation_count'' PNone \<noteq> PNone")
    case True
    then show ?thesis
      using calculate_citation_score_world[OF assms, of e a w]
        get_citation_count_cached[OF True, of e f]
      by simp
  next
    case False
    then show ?thesis
      using calculate_citation_score_world[OF assms, of e a w] c
      by (simp add: cache_count_def)
  qed
  with c have ne: "dict_get (heap ?w1 a) ''citation_count'' PNone \<noteq> PNone" by simp
  show "get_citation_count e f a ?w1 = (?c, ?w1)"
    using get_citation_count_cached[OF ne, of e f] cached by simp
  show "snd (calculate_citation_score e r a ?w1) = ?w1"
    using calculate_citation_score_world[OF assms, of e a ?w1] ne by simp
qed

lemma ex_ranker_fetcher:
  "citation_fetcher ex_ranker = Some ex_fetcher"
  "truthy (is_citation_enabled (config ex_ranker))"
  by (simp_all add: ex_ranker_eq default_config_values)

theorem cached_count_no_network_witness:
  "citation_fetcher ex_ranker = Some ex_fetcher \<and>
   truthy (is_citation_enabled (config ex_ranker)) \<and>
   dict_get (heap ex_world 10) ''citation_count'' PNone \<noteq> PNone \<and>
   get_citation_count ex_env ex_fetcher 10 ex_world = (PInt 1000, ex_world) \<and>
   fst (get_citation_count ex_env ex_fetcher 15 ex_world) \<noteq> PNone \<and>
   get_citation_count ex_env ex_fetcher 15
       (snd (calculate_citation_score ex_env ex_ranker 15 ex_world)) =
     (PInt 5, snd (calculate_citation_score ex_env ex_ranker 15 ex_world)) \<and>
   snd (calculate_citation_score ex_env ex_ranker 15
          (snd (calculate_citation_score ex_env ex_ranker 15 ex_world))) =
     snd (calculate_citation_score ex_env ex_ranker 15 ex_world)"
proof -
  have c10: "dict_get (heap ex_world 10) ''citation_count'' PNone = PInt 1000"
    by (simp add: ex_world_def ex_heap_def dict_get_def)
  have c15: "fst (get_citation_count ex_env ex_fetcher 15 ex_world) = PInt 5"
    using get_citation_count_doi_hit[OF ex_fetcher_delay ex_article_15(1,2), of ex_env]
    by (simp add: ex_article_15 ex_answers)
  from cached_count_no_network[OF ex_ranker_fetcher, of ex_world 10 ex_env]
    cached_count_no_network[OF ex_ranker_fetcher, of ex_world 15 ex_env]
  show ?thesis
    by (simp add: c10 c15 ex_ranker_fetcher)
qed

section \<open>How a ranking call changes the state\<close>

lemma signal_scores_world:
  "snd (signal_scores e r a query w) = w \<or>
   snd (signal_scores e r a query w) = snd (calculate_recency_score e r (heap w a) w) \<or>
   snd (signal_scores e r a query w) =
     snd (calculate_citation_score e r a (snd (calculate_recency_score e r (heap w a) w)))"
  by (auto simp: signal_scores_def split: sum.splits prod.splits)

lemma calculate_score_world:
  "snd (calculate_score e r a query weights w) = snd (signal_scores e r a query w)"
  by (simp add: calculate_score_def split: sum.splits prod.splits)

text \<open>
  A reflexive and transitive relation that every recency and every citation scoring
  respects is respected by the whole ranking call, whether it returns or raises.
\<close>

lemma calculate_score_rel:
  assumes refl: "\<And>w. Q w w" and trans: "\<And>u v w. Q u v \<Longrightarrow> Q v w \<Longrightarrow> Q u w"
    and rec: "\<And>article w. Q w (snd (calculate_recency_score e r article w))"
    and cit: "\<And>w. Q w (snd (calculate_citation_score e r a w))"
  shows "Q w (snd (calculate_score e r a query weights w))"
  using signal_scores_world[of e r a query w] refl[of w] rec[of w "heap w a"]
    trans[OF rec[of w "heap w a"] cit[of "snd (calculate_recency_score e r (heap w a) w)"]]
  by (auto simp: calculate_score_world)

lemma score_articles_rel:
  assumes refl: "\<And>w. Q w w" and trans: "\<And>u v w. Q u v \<Longrightarrow> Q v w \<Longrightarrow> Q u w"
    and rec: "\<And>article w. Q w (snd (calculate_recency_score e r article w))"
    and cit: "\<And>a w. a \<in> set articles \<Longrightarrow> Q w (snd (calculate_citation_score e r a w))"
  shows "Q w (snd (score_articles e r query weights articles acc w))"
  using cit
proof (induction articles arbitrary: acc w)
  case Nil
  then show ?case by (simp add: refl)
next
  case (Cons a rest)
  obtain res w1 where c: "calculate_score e r a query weights w = (res, w1)"
    by (cases "calculate_score e r a query weights w")
  have q1: "Q w w1"
    using calculate_score_rel[of Q e r a w query weights, OF refl trans rec Cons.prems] c
    by simp
  show ?case
  proof (cases res)
    case (Inl ex)
    with c q1 show ?thesis by simp
  next
    case (Inr score)
    have "Q w1 (snd (score_articles e r query weights rest (acc @ [(a, score)]) w1))"
      using Cons.IH[where acc="acc @ [(a, score)]" and w=w1] Cons.prems by simp
    with q1 c Inr show ?thesis by (auto intro: trans)
  qed
qed

lemma rank_articles_world:
  "snd (rank_articles e r articles query weights w) =
     (if articles = [] then w
      else snd (score_articles e r query
                  (if truthy weights then weights else get_ranking_weights (config r))
                  articles [] w))"
  by (simp add: rank_articles_def Let_def split: sum.splits prod.splits)

lemma rank_articles_rel:
  assumes refl: "\<And>w. Q w w" and trans: "\<And>u v w. Q u v \<Longrightarrow> Q v w \<Longrightarrow> Q u w"
    and rec: "\<And>article w. Q w (snd (calculate_recency_score e r article w))"
    and cit: "\<And>a w. a \<in> set articles \<Longrightarrow> Q w (snd (calculate_citation_score e r a w))"
  shows "Q w (snd (rank_articles e r articles query weights w))"
  using refl[of w]
    score_articles_rel[of Q e r articles w query _ "[]", OF refl trans rec cit]
  by (simp add: rank_articles_world)

subsection \<open>Rate limiting across a batch\<close>

lemma calculate_recency_score_keeps_pace:
  assumes "\<forall>n. 0 \<le> drift e n"
  shows "keeps_pace d w (snd (calculate_recency_score e r article w))"
proof -
  have "0 \<le> drift e (reads w)" using assms by simp
  then have "keeps_pace d w (snd (time_time e w))"
    by (intro keeps_pace_wait) simp_all
  then show ?thesis
    using calculate_recency_score_world[of e r article w] keeps_pace_refl[of d w] by auto
qed

lemma cache_count_keeps_pace: "keeps_pace d w (cache_count a c w)"
  by (intro keeps_pace_wait) (simp_all add: cache_count_def)

lemma calculate_citation_score_keeps_pace:
  assumes "\<forall>n. 0 \<le> drift e n" and "citation_fetcher r = Some f"
    and "num_of (rate_limit_delay f) = Some d"
  shows "keeps_pace d w (snd (calculate_citation_score e r a w))"
proof (cases "truthy (is_citation_enabled (config r))")
  case True
  have g: "keeps_pace d w (snd (get_citation_count e f a w))"
    using get_citation_count_keeps_pace[OF assms(1,3)] .
  have "keeps_pace d w (cache_count a c (snd (get_citation_count e f a w)))" for c
    using keeps_pace_trans[OF g cache_count_keeps_pace] .
  with g show ?thesis
    by (simp add: calculate_citation_score_world[OF assms(2) True] keeps_pace_refl)
next
  case False
  with assms(2) show ?thesis by (simp add: calculate_citation_score_def keeps_pace_refl)
qed

lemma rank_articles_keeps_pace:
  assumes "\<forall>n. 0 \<le> drift e n" and "citation_fetcher r = Some f"
    and "num_of (rate_limit_delay f) = Some d"
  shows "keeps_pace d w (snd (rank_articles e r articles query weights w))"
proof (rule rank_articles_rel[where Q = "keeps_pace d"])
  show "\<And>w. keeps_pace d w w" by (rule keeps_pace_refl)
  show "\<And>u v w. keeps_pace d u v \<Longrightarrow> keeps_pace d v w \<Longrightarrow> keeps_pace d u w"
    by (rule keeps_pace_trans)
  show "\<And>article w. keeps_pace d w (snd (calculate_recency_score e r article w))"
    by (rule calculate_recency_score_keeps_pace[OF assms(1)])
  show "\<And>a w. a \<in> set articles \<Longrightarrow> keeps_pace d w (snd (calculate_citation_score e r a w))"
    by (rule calculate_citation_score_keeps_pace[OF assms])
qed

text \<open>
  C8 (as the code has it).  The state carries the clock, and the log of network calls
  records, for each call, the clock at the moment it was sent.  On a clock that never
  runs backwards, for a fetcher with numeric delay \<open>d\<close>:

  \<^item> a pass through \<^verbatim>\<open>_rate_limit\<close> returns with the clock at least \<open>d\<close> after the
    timestamp stored by the previous pass (it sleeps for what is missing), and stores
    the clock it returns with;

  \<^item> if the calls logged so far are spaced by \<open>d\<close> (as they are when none has been
    made), then after any lookup, and after any ranking call through the same fetcher,
    whatever the articles, they still are; the calls the operation has added were sent
    between the clock before it and the clock after it, each at least \<open>d\<close> after the
    one before; so an operation that has sent \<open>N > 0\<close> network calls has taken at
    least \<open>(N - 1) * d\<close> on the clock.

  The bound counts network calls, not lookups.
\<close>

theorem rate_limit_spacing:
  assumes "\<forall>n. 0 \<le> drift e n" and "citation_fetcher r = Some f"
    and "num_of (rate_limit_delay f) = Some d" and "spaced d w"
    and "w' = snd (get_citation_count e f a w) \<or>
         w' = snd (rank_articles e r articles query weights w)"
  shows "(\<exists>w1. rate_limit e f w = (Inr (), w1) \<and> sent w1 = sent w \<and>
               clock w \<le> clock w1 \<and> last_request_time w + d \<le> clock w1 \<and>
               last_request_time w1 = clock w1) \<and>
         spaced d w' \<and> clock w \<le> clock w' \<and>
         (\<exists>new. sent w' = sent w @ new \<and>
                successively (\<lambda>s t. s + d \<le> t) (map fst new) \<and>
                (\<forall>t \<in> fst ` set new. clock w \<le> t \<and> t \<le> clock w') \<and>
                (new \<noteq> [] \<longrightarrow> real (length new - 1) * d \<le> clock w' - clock w))"
proof -
  from lookup_numeric[OF assms(3), of e w "GetDOI PNone" count_of_response] obtain w1 where
    rl: "rate_limit e f w = (Inr (), w1)" by blast
  from rate_limit_Inr[OF rl assms(1)] assms(3)
  have "last_request_time w + d \<le> clock w1" "last_request_time w1 = clock w1" by simp_all
  moreover have "clock w \<le> clock w1" using rate_limit_clock[OF assms(1), of w f] rl by simp
  moreover have "sent w1 = sent w" using rate_limit_heap_sent[of e f w] rl by simp
  ultimately have 1: "\<exists>w1. rate_limit e f w = (Inr (), w1) \<and> sent w1 = sent w \<and>
               clock w \<le> clock w1 \<and> last_request_time w + d \<le> clock w1 \<and>
               last_request_time w1 = clock w1"
    using rl by blast
  have "keeps_pace d w w'"
    using assms(5) get_citation_count_keeps_pace[OF assms(1,3)]
      rank_articles_keeps_pace[OF assms(1-3)] by auto
  from keeps_pace_elapsed[OF this assms(4)] 1 show ?thesis by blast
qed

theorem rate_limit_spacing_witness:
  "(\<forall>n. 0 \<le> drift ex_env n) \<and>
   citation_fetcher ex_ranker = Some ex_fetcher \<and>
   num_of (rate_limit_delay ex_fetcher) = Some (1 / 10) \<and>
   spaced (1 / 10) ex_world \<and>
   (\<exists>w1. rate_limit ex_env ex_fetcher ex_world = (Inr (), w1) \<and> sent w1 = sent ex_world \<and>
         clock ex_world \<le> clock w1 \<and> last_request_time ex_world + 1 / 10 \<le> clock w1 \<and>
         last_request_time w1 = clock w1) \<and>
   spaced (1 / 10) (snd (get_citation_count ex_env ex_fetcher 14 ex_world)) \<and>
   clock ex_world \<le> clock (snd (get_citation_count ex_env ex_fetcher 14 ex_world)) \<and>
   (\<exists>new. sent (snd (get_citation_count ex_env ex_fetcher 14 ex_world)) = sent ex_world @ new \<and>
          successively (\<lambda>s t. s + 1 / 10 \<le> t) (map fst new) \<and>
          2 \<le> length new \<and>
          real (length new - 1) * (1 / 10)
            \<le> clock (snd (get_citation_count ex_env ex_fetcher 14 ex_world)) - clock ex_world) \<and>
   1 / 10 \<le> clock (snd (get_citation_count ex_env ex_fetcher 14 ex_world)) - clock ex_world"
proof -
  let ?W = "snd (get_citation_count ex_env ex_fetcher 14 ex_world)"
  have mono: "\<forall>n. 0 \<le> drift ex_env n" by (simp add: ex_env_def)
  have sp: "spaced (1 / 10) ex_world" by (simp add: spaced_def ex_world_def)
  have which: "?W = snd (get_citation_count ex_env ex_fetcher 14 ex_world) \<or>
               ?W = snd (rank_articles ex_env ex_ranker [] PNone PNone ex_world)" by simp
  note th = rate_limit_spacing[OF mono ex_ranker_fetcher(1) ex_fetcher_delay sp which]
  note rl = th[THEN conjunct1]
  note sp' = th[THEN conjunct2, THEN conjunct1]
  note up = th[THEN conjunct2, THEN conjunct2, THEN conjunct1]
  from th[THEN conjunct2, THEN conjunct2, THEN conjunct2] obtain new where
    n: "sent ?W = sent ex_world @ new"
    and su: "successively (\<lambda>s t. s + 1 / 10 \<le> t) (map fst new)"
    and gap: "new \<noteq> [] \<longrightarrow> real (length new - 1) * (1 / 10) \<le> clock ?W - clock ex_world"
    by (elim exE conjE)
  have "\<exists>others. map snd (sent ?W) =
           map snd (sent ex_world) @ GetDOI (dict_get (heap ex_world 14) ''doi'' PNone)
             # GetArxiv (dict_get (heap ex_world 14) ''arxiv_id'' PNone) # others \<and>
           (others = [] \<or> others = [SearchTitle (dict_get (heap ex_world 14) ''title'' PNone)])"
    by (rule get_citation_count_doi_miss[OF ex_fetcher_delay ex_article_14(1-3)])
       (simp add: ex_article_14(4) ex_answers(2))
  then obtain others where "map snd (sent ?W) = map snd (sent ex_world) @
      GetDOI (dict_get (heap ex_world 14) ''doi'' PNone)
        # GetArxiv (dict_get (heap ex_world 14) ''arxiv_id'' PNone) # others" by blast
  then have "length (map snd (sent ?W)) = length (map snd (sent ex_world)) + 2 + length others"
    by simp
  then have len: "2 \<le> length new" unfolding n by simp
  then have ne: "new \<noteq> []" by auto
  have g: "real (length new - 1) * (1 / 10) \<le> clock ?W - clock ex_world"
    using gap ne by simp
  have "1 \<le> real (length new - 1)" using len by simp
  then have "1 / 10 \<le> real (length new - 1) * (1 / 10)" by simp
  with g have el: "1 / 10 \<le> clock ?W - clock ex_world" by simp
  have ex: "\<exists>new. sent ?W = sent ex_world @ new \<and>
          successively (\<lambda>s t. s + 1 / 10 \<le> t) (map fst new) \<and>
          2 \<le> length new \<and>
          real (length new - 1) * (1 / 10) \<le> clock ?W - clock ex_world"
    using n su len g by blast
  show ?thesis
    using mono ex_ranker_fetcher(1) ex_fetcher_delay sp rl sp' up ex el
    by - (intro conjI, assumption+)
qed

text \<open>
  C8 as the specification words it, with lookups counted, fails: a lookup for an
  article that carries a cached count returns without reading the clock, so two
  consecutive lookups through a fetcher with delay \<open>1 / 10\<close> can take no time at all.
\<close>

theorem cached_lookups_not_delayed:
  "num_of (rate_limit_delay ex_fetcher) = Some (1 / 10) \<and>
   get_citation_count ex_env ex_fetcher 10 ex_world = (PInt 1000, ex_world) \<and>
   get_citation_count ex_env ex_fetcher 12 ex_world = (PInt 1000, ex_world) \<and>
   clock (snd (get_citation_count ex_env ex_fetcher 12
                 (snd (get_citation_count ex_env ex_fetcher 10 ex_world)))) - clock ex_world
     < (2 - 1) * (1 / 10)"
proof -
  have c10: "dict_get (heap ex_world 10) ''citation_count'' PNone = PInt 1000"
    and c12: "dict_get (heap ex_world 12) ''citation_count'' PNone = PInt 1000"
    by (simp_all add: ex_world_def ex_heap_def dict_get_def)
  have 1: "get_citation_count ex_env ex_fetcher 10 ex_world = (PInt 1000, ex_world)"
    using get_citation_count_cached[of ex_world 10 ex_env ex_fetcher] c10 by simp
  have 2: "get_citation_count ex_env ex_fetcher 12 ex_world = (PInt 1000, ex_world)"
    using get_citation_count_cached[of ex_world 12 ex_env ex_fetcher] c12 by simp
  show ?thesis by (simp add: 1 2 ex_fetcher_delay)
qed

subsection \<open>What a ranking call writes\<close>

lemma cache_fill_refl: "cache_fill A w w"
  by (simp add: cache_fill_def)

lemma cache_fill_same_heap: "heap w' = heap w \<Longrightarrow> cache_fill A w w'"
  by (simp add: cache_fill_def)

lemma cache_fill_trans:
  assumes "cache_fill A u v" and "cache_fill A v w"
  shows "cache_fill A u w"
  unfolding cache_fill_def
proof (intro allI conjI impI)
  fix a
  assume "a \<notin> A" then show "heap w a = heap u a"
    using assms by (simp add: cache_fill_def)
next
  fix a k assume "k \<noteq> ''citation_count''"
  then show "map_of (heap w a) k = map_of (heap u a) k"
    using assms by (simp add: cache_fill_def)
next
  fix a
  assume d: "map_of (heap w a) ''citation_count'' \<noteq> map_of (heap u a) ''citation_count''"
  let ?c = "\<lambda>x. map_of (heap x a) ''citation_count''"
  let ?g = "\<lambda>x. dict_get (heap x a) ''citation_count'' PNone"
  have uv: "?c v \<noteq> ?c u \<longrightarrow> ?g u = PNone \<and> ?g v \<noteq> PNone"
    and vw: "?c w \<noteq> ?c v \<longrightarrow> ?g v = PNone \<and> ?g w \<noteq> PNone"
    using assms by (simp_all add: cache_fill_def)
  have eqg: "\<And>x y. ?c x = ?c y \<Longrightarrow> ?g x = ?g y" by (simp add: dict_get_def)
  show "?g u = PNone" using d uv vw eqg by metis
  show "?g w \<noteq> PNone" using d uv vw eqg by metis
qed

text \<open>The one write: a count the fetcher has just resolved, into the article scored.\<close>

lemma calculate_citation_score_heap:
  "heap (snd (calculate_citation_score e r a w)) =
     (case citation_fetcher r of
        None \<Rightarrow> heap w
      | Some f \<Rightarrow>
          if truthy (is_citation_enabled (config r)) \<and>
             dict_get (heap w a) ''citation_count'' PNone = PNone \<and>
             fst (get_citation_count e f a w) \<noteq> PNone
          then (heap w)(a := dict_set ''citation_count'' (fst (get_citation_count e f a w))
                               (heap w a))
          else heap w)"
proof (cases "citation_fetcher r")
  case None
  then show ?thesis by (simp add: calculate_citation_score_def)
next
  case (Some f)
  show ?thesis
  proof (cases "truthy (is_citation_enabled (config r))")
    case True
    show ?thesis
      using calculate_citation_score_world[OF Some True, of e a w] Some True
      by (simp add: cache_count_def)
  next
    case False
    with Some show ?thesis by (simp add: calculate_citation_score_def)
  qed
qed

lemma calculate_citation_score_fill:
  "a \<in> A \<Longrightarrow> cache_fill A w (snd (calculate_citation_score e r a w))"
  unfolding cache_fill_def calculate_citation_score_heap
  by (auto simp: map_of_dict_set split: option.splits)

lemma rank_articles_fill:
  "cache_fill (set articles) w (snd (rank_articles e r articles query weights w))"
proof (rule rank_articles_rel[where Q = "cache_fill (set articles)"])
  show "\<And>w. cache_fill (set articles) w w" by (rule cache_fill_refl)
  show "\<And>u v w. cache_fill (set articles) u v \<Longrightarrow> cache_fill (set articles) v w \<Longrightarrow>
          cache_fill (set articles) u w" by (rule cache_fill_trans)
  show "\<And>article w. cache_fill (set articles) w (snd (calculate_recency_score e r article w))"
    by (simp add: cache_fill_same_heap)
  show "\<And>a w. a \<in> set articles \<Longrightarrow>
          cache_fill (set articles) w (snd (calculate_citation_score e r a w))"
    by (rule calculate_citation_score_fill)
qed

text \<open>
  C9.  Whatever a ranking call does (return or raise), in the state it leaves: every
  field other than \<^verbatim>\<open>citation_count\<close> of every article is as before; an article that was
  not passed is untouched; and a \<^verbatim>\<open>citation_count\<close> that differs from before was absent
  or \<^verbatim>\<open>None\<close> before and is a value other than \<^verbatim>\<open>None\<close> now.
\<close>

theorem rank_articles_frame:
  "(\<forall>a k. k \<noteq> ''citation_count'' \<longrightarrow>
       map_of (heap (snd (rank_articles e r articles query weights w)) a) k
         = map_of (heap w a) k) \<and>
   (\<forall>a. a \<notin> set articles \<longrightarrow>
       heap (snd (rank_articles e r articles query weights w)) a = heap w a) \<and>
   (\<forall>a. map_of (heap (snd (rank_articles e r articles query weights w)) a) ''citation_count''
          \<noteq> map_of (heap w a) ''citation_count'' \<longrightarrow>
        dict_get (heap w a) ''citation_count'' PNone = PNone \<and>
        dict_get (heap (snd (rank_articles e r articles query weights w)) a)
          ''citation_count'' PNone \<noteq> PNone)"
  using rank_articles_fill[of articles w e r query weights]
  unfolding cache_fill_def by blast



lemma score_articles_single_world:
  "snd (score_articles e r query weights [a] acc w) = snd (calculate_score e r a query weights w)"
  by (simp split: prod.splits sum.splits)

lemma ex_rank_15_heap:
  "heap (snd (rank_articles ex_env ex_ranker [15] PNone PNone ex_world)) =
     ex_heap(15 := ex_heap 15 @ [(''citation_count'', PInt 5)])"
proof -
  have c: "fst (get_citation_count ex_env ex_fetcher 15 ex_world) = PInt 5"
    using get_citation_count_doi_hit[OF ex_fetcher_delay ex_article_15(1,2), of ex_env]
    by (simp add: ex_article_15 ex_answers)
  have h: "heap ex_world = ex_heap" by (simp add: ex_world_def)
  have d: "dict_set ''citation_count'' (PInt 5) (ex_heap 15)
       = ex_heap 15 @ [(''citation_count'', PInt 5)]"
    by (simp add: ex_heap_def dict_set_def)
  have rec: "calculate_recency_score ex_env ex_ranker (heap ex_world 15) ex_world
               = (Inr 0, ex_world)"
    by (simp add: calculate_recency_score_def ex_heap_def h)
  have ss: "snd (signal_scores ex_env ex_ranker 15 PNone ex_world)
              = snd (calculate_citation_score ex_env ex_ranker 15 ex_world)"
    by (simp add: signal_scores_def rec split: prod.splits sum.splits)
  have "heap (snd (calculate_citation_score ex_env ex_ranker 15 ex_world))
          = ex_heap(15 := ex_heap 15 @ [(''citation_count'', PInt 5)])"
    using ex_article_15(1) c
    by (simp add: calculate_citation_score_heap ex_ranker_fetcher h d)
  then show ?thesis
    by (simp add: rank_articles_world score_articles_single_world calculate_score_world ss
          del: score_articles.simps)
qed

theorem rank_articles_frame_witness:
  "''title'' \<noteq> ''citation_count'' \<and>
   map_of (heap (snd (rank_articles ex_env ex_ranker [15] PNone PNone ex_world)) 15) ''title''
     = map_of (heap ex_world 15) ''title'' \<and>
   (10::nat) \<notin> set [15] \<and>
   heap (snd (rank_articles ex_env ex_ranker [15] PNone PNone ex_world)) 10 = heap ex_world 10 \<and>
   map_of (heap (snd (rank_articles ex_env ex_ranker [15] PNone PNone ex_world)) 15)
       ''citation_count''
     \<noteq> map_of (heap ex_world 15) ''citation_count'' \<and>
   dict_get (heap ex_world 15) ''citation_count'' PNone = PNone \<and>
   dict_get (heap (snd (rank_articles ex_env ex_ranker [15] PNone PNone ex_world)) 15)
     ''citation_count'' PNone \<noteq> PNone"
proof -
  let ?w' = "snd (rank_articles ex_env ex_ranker [15] PNone PNone ex_world)"
  note fr = rank_articles_frame[of ex_env ex_ranker "[15]" PNone PNone ex_world]
  have ch: "map_of (heap ?w' 15) ''citation_count'' \<noteq> map_of (heap ex_world 15) ''citation_count''"
    unfolding ex_rank_15_heap by (simp add: ex_world_def ex_heap_def)
  have t: "''title'' \<noteq> ''citation_count''" by simp
  have n: "10 \<notin> set [15::nat]" by simp
  have 1: "map_of (heap ?w' 15) ''title'' = map_of (heap ex_world 15) ''title''"
    using fr[THEN conjunct1, rule_format, where a = 15 and k = "''title''"] t by simp
  have 2: "heap ?w' 10 = heap ex_world 10"
    using fr[THEN conjunct2, THEN conjunct1, rule_format, where a = 10] n by simp
  note 3 = fr[THEN conjunct2, THEN conjunct2, rule_format, where a = 15, OF ch]
  show ?thesis
    using t 1 n 2 ch 3[THEN conjunct1] 3[THEN conjunct2]
    by - (intro conjI, assumption+)
qed

section \<open>The ranking\<close>









subsection \<open>The sort\<close>










section \<open>Failures while scoring\<close>









end
